theory Spec2Isabelle
  imports Main "HOL-Library.Multiset"
begin

section \<open>JavaScript values\<close>

text \<open>
  VertexDB is a JavaScript class. Rows are plain objects whose fields hold primitive values.
  A number is modelled by an integer: the numbers of the model are the doubles that are
  integers (up to the largest double), and what the code computes on them is rounded to the
  nearest double as the language does; fractions, infinities and \<^verbatim>\<open>NaN\<close> as values of a
  field are outside the model. The value of a where-condition may also be an array of primitives, as
  \<^verbatim>\<open>whereIn\<close> requires. A row is a finite map from field names to primitives: reading a field
  that is absent gives \<^verbatim>\<open>undefined\<close>. Names inherited from \<^verbatim>\<open>Object.prototype\<close> are not
  modelled.
\<close>

datatype prim = PUndefined | PNull | PBool bool | PNum int | PStr string

datatype jsval = Prim prim | Arr "prim list"

type_synonym row = "string \<rightharpoonup> prim"

text \<open>The property read \<^verbatim>\<open>row[f]\<close>.\<close>

definition getProp :: "row \<Rightarrow> string \<Rightarrow> prim" where
  "getProp r f = (case r f of None \<Rightarrow> PUndefined | Some v \<Rightarrow> v)"

fun truthy :: "prim \<Rightarrow> bool" where
  "truthy PUndefined = False"
| "truthy PNull = False"
| "truthy (PBool b) = b"
| "truthy (PNum n) = (n \<noteq> 0)"
| "truthy (PStr s) = (s \<noteq> [])"

fun typeof :: "prim \<Rightarrow> string" where
  "typeof PUndefined = ''undefined''"
| "typeof PNull = ''object''"
| "typeof (PBool b) = ''boolean''"
| "typeof (PNum n) = ''number''"
| "typeof (PStr s) = ''string''"

subsection \<open>Rounding to doubles\<close>

text \<open>
  The nearest double to an integer, ties going to the even significand: an integer of at
  most 53 bits is a double, and a longer one keeps its leading 53 bits.
\<close>

fun bit_length :: "nat \<Rightarrow> nat" where
  "bit_length n = (if n = 0 then 0 else Suc (bit_length (n div 2)))"

declare bit_length.simps [simp del]

definition round_double :: "int \<Rightarrow> int" where
  "round_double x =
     (let m = nat \<bar>x\<bar>; k = bit_length m - 53;
          q = m div 2 ^ k; r = m mod 2 ^ k;
          q' = (if 2 * r > 2 ^ k \<or> (2 * r = 2 ^ k \<and> odd q) then q + 1 else q)
      in if k = 0 then x else sgn x * int (q' * 2 ^ k))"

subsection \<open>Conversion to strings\<close>

definition digit_char :: "nat \<Rightarrow> char" where
  "digit_char d = ''0123456789'' ! d"

fun nat_digits :: "nat \<Rightarrow> string" where
  "nat_digits n =
     (if n < 10 then [digit_char n] else nat_digits (n div 10) @ [digit_char (n mod 10)])"

declare nat_digits.simps [simp del]

text \<open>
  \<^verbatim>\<open>Number.prototype.toString\<close> on a positive integer: the language prints the shortest
  decimal \<open>s\<close> times a power of ten that rounds to the number (the closest such \<open>s\<close>, the
  even one on a tie), with zeros up to 21 digits and in exponent notation beyond. Below
  \<open>2 ^ 53\<close> every integer is a double, so the shortest decimal is the number itself.
\<close>

function shortest_digits :: "nat \<Rightarrow> nat \<Rightarrow> nat \<Rightarrow> nat \<times> nat" where
  "shortest_digits k v D =
     (if D \<le> k then (v, 0)
      else
        (let p = 10 ^ (D - k); lo = v div p; hi = lo + 1;
             ok_lo = (round_double (int (lo * p)) = int v);
             ok_hi = (round_double (int (hi * p)) = int v)
         in if ok_lo \<and> ok_hi
            then (if 2 * (v mod p) < p \<or> (2 * (v mod p) = p \<and> even lo) then (lo, D - k)
                  else (hi, D - k))
            else if ok_lo then (lo, D - k)
            else if ok_hi then (hi, D - k)
            else shortest_digits (Suc k) v D))"
  by pat_completeness auto
termination
  by (relation "measure (\<lambda>(k, v, D). D - k)") auto

declare shortest_digits.simps [simp del]

function strip_zeros :: "nat \<Rightarrow> nat \<Rightarrow> nat \<times> nat" where
  "strip_zeros s e =
     (if s \<noteq> 0 \<and> s mod 10 = 0 then strip_zeros (s div 10) (Suc e) else (s, e))"
  by pat_completeness auto
termination
  by (relation "measure (\<lambda>(s, e). s)") auto

declare strip_zeros.simps [simp del]

definition big_string :: "nat \<Rightarrow> string" where
  "big_string v =
     (let (s, e) = (case shortest_digits 1 v (length (nat_digits v)) of
                      (s, e) \<Rightarrow> strip_zeros s e);
          ds = nat_digits s; n = length ds + e
      in if n \<le> 21 then ds @ replicate e (CHR ''0'')
         else (if length ds = 1 then ds else hd ds # CHR ''.'' # tl ds)
              @ ''e+'' @ nat_digits (n - 1))"

definition number_string :: "nat \<Rightarrow> string" where
  "number_string v = (if v < 2 ^ 53 then nat_digits v else big_string v)"

definition int_string :: "int \<Rightarrow> string" where
  "int_string i =
     (if i < 0 then CHR ''-'' # number_string (nat (- i)) else number_string (nat i))"

fun ToString :: "prim \<Rightarrow> string" where
  "ToString PUndefined = ''undefined''"
| "ToString PNull = ''null''"
| "ToString (PBool b) = (if b then ''true'' else ''false'')"
| "ToString (PNum n) = int_string n"
| "ToString (PStr s) = s"

text \<open>\<^verbatim>\<open>Array.prototype.join\<close> with a comma, which is what an array converts to.\<close>

fun join_comma :: "prim list \<Rightarrow> string" where
  "join_comma [] = []"
| "join_comma [p] = (if p = PUndefined \<or> p = PNull then [] else ToString p)"
| "join_comma (p # q # ps) =
     (if p = PUndefined \<or> p = PNull then [] else ToString p) @ '','' @ join_comma (q # ps)"

fun ToPrimitive :: "jsval \<Rightarrow> prim" where
  "ToPrimitive (Prim p) = p"
| "ToPrimitive (Arr ps) = PStr (join_comma ps)"

subsection \<open>Conversion to numbers\<close>

definition is_space :: "char \<Rightarrow> bool" where
  "is_space c \<longleftrightarrow> (of_char c :: nat) \<in> {9, 10, 11, 12, 13, 32}"

definition digit_val :: "char \<Rightarrow> nat option" where
  "digit_val c =
     (let n = (of_char c :: nat) in
      if 48 \<le> n \<and> n \<le> 57 then Some (n - 48)
      else if 97 \<le> n \<and> n \<le> 122 then Some (n - 87)
      else if 65 \<le> n \<and> n \<le> 90 then Some (n - 55)
      else None)"

fun radix_prefix :: "nat \<Rightarrow> string \<Rightarrow> nat list" where
  "radix_prefix R [] = []"
| "radix_prefix R (c # cs) =
     (case digit_val c of
        None \<Rightarrow> []
      | Some d \<Rightarrow> if d < R then d # radix_prefix R cs else [])"

definition digits_value :: "nat \<Rightarrow> nat list \<Rightarrow> nat" where
  "digits_value R ds = foldl (\<lambda>acc d. acc * R + d) 0 ds"

text \<open>
  \<^verbatim>\<open>parseInt(x)\<close> with no radix: the argument is converted to a string, leading white space and
  a sign are removed, a \<^verbatim>\<open>0x\<close> prefix selects radix 16, and the longest prefix of digits is
  read and rounded to a double. \<^verbatim>\<open>None\<close> stands for \<^verbatim>\<open>NaN\<close>. White space is the ASCII
  white space.
\<close>

definition parseInt_string :: "string \<Rightarrow> int option" where
  "parseInt_string s =
     (let s1 = dropWhile is_space s;
          neg = (case s1 of [] \<Rightarrow> False | c # cs \<Rightarrow> c = CHR ''-'');
          s2 = (case s1 of [] \<Rightarrow> [] | c # cs \<Rightarrow> if c = CHR ''-'' \<or> c = CHR ''+'' then cs else s1);
          hex = (case s2 of a # b # cs \<Rightarrow> a = CHR ''0'' \<and> (b = CHR ''x'' \<or> b = CHR ''X'') | _ \<Rightarrow> False);
          R = (if hex then 16 else 10);
          s3 = (if hex then drop 2 s2 else s2);
          ds = radix_prefix R s3
      in if ds = [] then None
         else Some (round_double ((if neg then - 1 else 1) * int (digits_value R ds))))"

definition parseInt :: "prim \<Rightarrow> int option" where
  "parseInt v = parseInt_string (ToString v)"

definition trim :: "string \<Rightarrow> string" where
  "trim s = rev (dropWhile is_space (rev (dropWhile is_space s)))"

definition radix_literal :: "nat \<Rightarrow> string \<Rightarrow> int option" where
  "radix_literal R s =
     (if s \<noteq> [] \<and> length (radix_prefix R s) = length s
      then Some (round_double (int (digits_value R (radix_prefix R s)))) else None)"

text \<open>
  \<^verbatim>\<open>ToNumber\<close>, with \<^verbatim>\<open>None\<close> for \<^verbatim>\<open>NaN\<close>. Of the numeric strings only the integer literals
  are modelled (decimal with an optional sign, and the prefixed hexadecimal, octal and binary
  forms): strings with a fraction, an exponent or \<^verbatim>\<open>Infinity\<close> denote numbers that are not
  integers and are outside the model.
\<close>

definition StringToNumber :: "string \<Rightarrow> int option" where
  "StringToNumber s =
     (let t = trim s in
      if t = [] then Some 0
      else if take 2 t = ''0x'' \<or> take 2 t = ''0X'' then radix_literal 16 (drop 2 t)
      else if take 2 t = ''0o'' \<or> take 2 t = ''0O'' then radix_literal 8 (drop 2 t)
      else if take 2 t = ''0b'' \<or> take 2 t = ''0B'' then radix_literal 2 (drop 2 t)
      else if hd t = CHR ''-'' then map_option uminus (radix_literal 10 (tl t))
      else if hd t = CHR ''+'' then radix_literal 10 (tl t)
      else radix_literal 10 t)"

fun ToNumber :: "prim \<Rightarrow> int option" where
  "ToNumber PUndefined = None"
| "ToNumber PNull = Some 0"
| "ToNumber (PBool b) = Some (if b then 1 else 0)"
| "ToNumber (PNum n) = Some n"
| "ToNumber (PStr s) = StringToNumber s"

subsection \<open>Comparison\<close>

fun str_less :: "string \<Rightarrow> string \<Rightarrow> bool" where
  "str_less [] [] = False"
| "str_less [] (y # ys) = True"
| "str_less (x # xs) [] = False"
| "str_less (x # xs) (y # ys) =
     ((of_char x :: nat) < of_char y \<or> (x = y \<and> str_less xs ys))"

text \<open>
  The abstract relational comparison \<^verbatim>\<open>a < b\<close> of the language: \<^verbatim>\<open>Some\<close> of its truth value, or
  \<^verbatim>\<open>None\<close> when an operand is \<^verbatim>\<open>NaN\<close>. The four operators are read off it as the language
  defines them.
\<close>

definition compare_lt :: "prim \<Rightarrow> prim \<Rightarrow> bool option" where
  "compare_lt a b =
     (case (a, b) of
        (PStr x, PStr y) \<Rightarrow> Some (str_less x y)
      | _ \<Rightarrow> (case (ToNumber a, ToNumber b) of
                (Some m, Some n) \<Rightarrow> Some (m < n)
              | _ \<Rightarrow> None))"

definition js_lt :: "prim \<Rightarrow> prim \<Rightarrow> bool" where
  "js_lt a b \<longleftrightarrow> compare_lt a b = Some True"

definition js_gt :: "prim \<Rightarrow> prim \<Rightarrow> bool" where
  "js_gt a b \<longleftrightarrow> compare_lt b a = Some True"

definition js_le :: "prim \<Rightarrow> prim \<Rightarrow> bool" where
  "js_le a b \<longleftrightarrow> compare_lt b a = Some False"

definition js_ge :: "prim \<Rightarrow> prim \<Rightarrow> bool" where
  "js_ge a b \<longleftrightarrow> compare_lt a b = Some False"

text \<open>
  Strict equality \<^verbatim>\<open>===\<close> between a field of a row and a condition value. An array is equal
  only to itself, and rows hold no arrays.
\<close>

fun strict_eq :: "prim \<Rightarrow> jsval \<Rightarrow> bool" where
  "strict_eq p (Prim q) = (p = q)"
| "strict_eq p (Arr qs) = False"

subsection \<open>Strings\<close>

fun starts_with :: "string \<Rightarrow> string \<Rightarrow> bool" where
  "starts_with s [] = True"
| "starts_with [] (c # cs) = False"
| "starts_with (d # ds) (c # cs) = (d = c \<and> starts_with ds cs)"

text \<open>\<^verbatim>\<open>String.prototype.includes\<close>: the second string occurs in the first.\<close>

fun str_includes :: "string \<Rightarrow> string \<Rightarrow> bool" where
  "str_includes [] t = (t = [])"
| "str_includes (c # cs) t = (starts_with (c # cs) t \<or> str_includes cs t)"

text \<open>\<^verbatim>\<open>toLowerCase\<close> on the ASCII letters; other characters are left as they are.\<close>

definition lower_char :: "char \<Rightarrow> char" where
  "lower_char c =
     (let n = (of_char c :: nat) in if 65 \<le> n \<and> n \<le> 90 then char_of (n + 32) else c)"

definition toLowerCase :: "string \<Rightarrow> string" where
  "toLowerCase s = map lower_char s"

definition upper_char :: "char \<Rightarrow> char" where
  "upper_char c =
     (let n = (of_char c :: nat) in if 97 \<le> n \<and> n \<le> 122 then char_of (n - 32) else c)"

definition toUpperCase :: "string \<Rightarrow> string" where
  "toUpperCase s = map upper_char s"

text \<open>
  \<^verbatim>\<open>Array.prototype.slice(start, end)\<close>: a negative index counts from the end, and both are
  clamped to the length.
\<close>

definition rel_index :: "int \<Rightarrow> nat \<Rightarrow> nat" where
  "rel_index i len = (if i < 0 then nat (max (int len + i) 0) else min (nat i) len)"

definition js_slice :: "'a list \<Rightarrow> int \<Rightarrow> int \<Rightarrow> 'a list" where
  "js_slice xs start fin =
     (let k = rel_index start (length xs); f = rel_index fin (length xs)
      in take (f - k) (drop k xs))"

section \<open>The store\<close>

subsection \<open>Errors and results\<close>

text \<open>
  Every failure of the class is a JavaScript \<^verbatim>\<open>Error\<close> with a message; the constructors below
  name the messages. \<^verbatim>\<open>TypeError\<close> is what the language raises when a method is called on a
  value that lacks it, and \<^verbatim>\<open>UserError\<close> is a failure raised by a caller's own callback.
\<close>

datatype violation =
    Required | WrongType string | BelowMin int | AboveMax int | WrongLength int | PatternMismatch

datatype error =
    TableNotFound string
  | TableAlreadyExists string
  | TriggerAlreadyExists string
  | SchemaValidationError string violation
  | ValuesMustBeArray
  | TypeError
  | UserError string

datatype 'a outcome = Return 'a | Throw error

subsection \<open>Schemas\<close>

text \<open>
  A schema lists, in declaration order, the rules of each field. A rule that is absent is
  \<^verbatim>\<open>None\<close> (or \<^verbatim>\<open>False\<close> for \<^verbatim>\<open>required\<close>); a pattern is the predicate that
  \<^verbatim>\<open>RegExp.prototype.test\<close> computes on a string.
\<close>

record rules =
  r_required :: bool
  r_type :: "string option"
  r_min :: "int option"
  r_max :: "int option"
  r_length :: "int option"
  r_pattern :: "(string \<Rightarrow> bool) option"

type_synonym schema = "(string \<times> rules) list"

text \<open>
  The body of the inner loop of \<^verbatim>\<open>_validateSchema\<close>: the six checks in their order. Each rule
  is guarded by its own truthiness, so a bound of \<^verbatim>\<open>0\<close> or an empty type name switches the
  check off.
\<close>

definition check_rules :: "row \<Rightarrow> string \<Rightarrow> rules \<Rightarrow> unit outcome" where
  "check_rules r f rl =
     (let v = getProp r f in
      if r_required rl \<and> (v = PUndefined \<or> v = PNull)
        then Throw (SchemaValidationError f Required)
      else if (case r_type rl of None \<Rightarrow> False | Some ty \<Rightarrow> ty \<noteq> [] \<and> typeof v \<noteq> ty)
        then Throw (SchemaValidationError f (WrongType (the (r_type rl))))
      else if (case r_min rl of None \<Rightarrow> False | Some m \<Rightarrow> m \<noteq> 0 \<and> js_lt v (PNum m))
        then Throw (SchemaValidationError f (BelowMin (the (r_min rl))))
      else if (case r_max rl of None \<Rightarrow> False | Some m \<Rightarrow> m \<noteq> 0 \<and> js_gt v (PNum m))
        then Throw (SchemaValidationError f (AboveMax (the (r_max rl))))
      else if (case r_length rl of None \<Rightarrow> False
               | Some n \<Rightarrow> n \<noteq> 0 \<and> int (length (ToString v)) \<noteq> n)
        then Throw (SchemaValidationError f (WrongLength (the (r_length rl))))
      else if (case r_pattern rl of None \<Rightarrow> False | Some p \<Rightarrow> \<not> p (ToString v))
        then Throw (SchemaValidationError f PatternMismatch)
      else Return ())"

fun validate_row :: "row \<Rightarrow> schema \<Rightarrow> unit outcome" where
  "validate_row r [] = Return ()"
| "validate_row r ((f, rl) # es) =
     (case check_rules r f rl of Throw e \<Rightarrow> Throw e | Return u \<Rightarrow> validate_row r es)"

fun m_validateSchema :: "row list \<Rightarrow> schema \<Rightarrow> unit outcome" where
  "m_validateSchema [] sch = Return ()"
| "m_validateSchema (r # rs) sch =
     (case validate_row r sch of Throw e \<Rightarrow> Throw e | Return u \<Rightarrow> m_validateSchema rs sch)"

subsection \<open>Conditions, triggers and the state\<close>

record condition =
  c_field :: string
  c_operator :: prim
  c_value :: jsval

record order_spec =
  ob_column :: string
  ob_direction :: string

record relation =
  rel_table :: string
  rel_type :: string
  rel_foreignKey :: string

text \<open>
  A trigger is called with the operation and the old and new row (\<^verbatim>\<open>None\<close> for \<^verbatim>\<open>null\<close>), and
  either returns a value or raises. Triggers are taken to be functions of their argument:
  a trigger that itself changes the store or its argument is not modelled.
\<close>

datatype trigger_result = Returns prim | Raises

type_synonym trigger = "string \<Rightarrow> row option \<Rightarrow> row option \<Rightarrow> trigger_result"

text \<open>
  The comparator of a sort returns a number. \<^verbatim>\<open>Array.prototype.sort\<close> is the host's: the
  language fixes its result only for a consistent comparator, so the sort is a parameter of
  every operation that may call it.
\<close>

type_synonym host_sort = "(row \<Rightarrow> row \<Rightarrow> int) \<Rightarrow> row list \<Rightarrow> row list"

text \<open>
  The members of the class, \<^verbatim>\<open>_x\<close> written \<open>m_x\<close>, and its environment. A table of
  \<^verbatim>\<open>_tables\<close> is a reference to an array, and \<open>arrays\<close> is the heap that holds the rows of
  each array: \<^verbatim>\<open>push\<close> changes an array in place, every other write stores a new array at the
  reference \<open>fresh\<close>. \<open>clock\<close> is the sequence of strings that successive calls of
  \<^verbatim>\<open>new Date().toISOString()\<close> return, and \<open>ticks\<close> counts the calls made. \<^verbatim>\<open>_logger\<close> is
  \<^verbatim>\<open>True\<close> when a sink is set; the sink is assumed not to raise. \<^verbatim>\<open>_schemas\<close> is
  \<^verbatim>\<open>None\<close> until a schema is first stored. Nothing modelled changes a relationship list in
  place, so \<^verbatim>\<open>_relationships\<close> holds values. \<^verbatim>\<open>_lastError\<close> and \<^verbatim>\<open>_indexes\<close>, which no
  operation modelled here reads or writes, are left out.
\<close>

record db =
  m_tables :: "string \<rightharpoonup> nat"
  m_triggers :: "string \<rightharpoonup> (string \<times> trigger) list"
  m_whereConditions :: "condition list"
  m_operator :: string
  m_orderBy :: "order_spec option"
  m_limit :: "int option"
  m_offset :: int
  m_searchConditions :: "(string \<times> prim) list"
  m_relationships :: "string \<rightharpoonup> relation list"
  m_logger :: bool
  m_timestamps :: bool
  m_softDelete :: bool
  m_schemas :: "(string \<rightharpoonup> schema) option"
  m_lastInsertId :: prim
  arrays :: "nat \<Rightarrow> row list"
  fresh :: nat
  clock :: "nat \<Rightarrow> string"
  ticks :: nat

text \<open>The rows of a table, read through its reference (direct inspection of the store).\<close>

definition rows_of :: "db \<Rightarrow> string \<Rightarrow> row list option" where
  "rows_of s t = map_option (arrays s) (m_tables s t)"

definition toISOString :: "db \<Rightarrow> string \<times> db" where
  "toISOString s = (clock s (ticks s), s\<lparr>ticks := Suc (ticks s)\<rparr>)"

text \<open>\<^verbatim>\<open>_log\<close> writes to the sink, reading the clock once, when logging is on.\<close>

definition m_log :: "string \<Rightarrow> db \<Rightarrow> db" where
  "m_log operation s = (if m_logger s then snd (toISOString s) else s)"

text \<open>
  \<^verbatim>\<open>_trigger\<close>: every trigger of the table runs, in the order of creation; one that returns
  \<^verbatim>\<open>false\<close> clears the flag, one that raises is logged.
\<close>

fun run_triggers ::
  "(string \<times> trigger) list \<Rightarrow> string \<Rightarrow> row option \<Rightarrow> row option \<Rightarrow> bool \<Rightarrow> db \<Rightarrow> bool \<times> db" where
  "run_triggers [] operation OLD NEW shouldCommit s = (shouldCommit, s)"
| "run_triggers ((triggerName, trg) # ts) operation OLD NEW shouldCommit s =
     (case trg operation OLD NEW of
        Returns v \<Rightarrow>
          run_triggers ts operation OLD NEW (if v = PBool False then False else shouldCommit) s
      | Raises \<Rightarrow>
          run_triggers ts operation OLD NEW shouldCommit (m_log (operation @ '' trigger'') s))"

definition m_trigger ::
  "string \<Rightarrow> string \<Rightarrow> row option \<Rightarrow> row option \<Rightarrow> db \<Rightarrow> bool \<times> db" where
  "m_trigger tableName operation OLD NEW s =
     run_triggers (case m_triggers s tableName of None \<Rightarrow> [] | Some ts \<Rightarrow> ts)
       operation OLD NEW True s"

definition m_resetConditions :: "db \<Rightarrow> db" where
  "m_resetConditions s =
     s\<lparr>m_whereConditions := [], m_operator := ''AND'', m_orderBy := None,
       m_limit := None, m_offset := 0, m_searchConditions := []\<rparr>"

text \<open>\<^verbatim>\<open>parseInt(row.id) || 0\<close>: \<^verbatim>\<open>NaN\<close> and \<^verbatim>\<open>0\<close> both give \<^verbatim>\<open>0\<close>.\<close>

definition id_or_zero :: "row \<Rightarrow> int" where
  "id_or_zero r = (case parseInt (getProp r ''id'') of None \<Rightarrow> 0 | Some n \<Rightarrow> n)"

text \<open>
  \<^verbatim>\<open>Math.max(...table.map(row => parseInt(row.id) || 0)) + 1\<close>: the maximum of doubles is
  one of them, and the addition is the addition of doubles, which rounds.
\<close>

definition m_getNextId :: "string \<Rightarrow> db \<Rightarrow> int" where
  "m_getNextId tableName s =
     (case m_tables s tableName of
        None \<Rightarrow> 1
      | Some a \<Rightarrow>
          (let table = arrays s a in
           if table = [] then 1 else round_double (Max (set (map id_or_zero table)) + 1)))"

subsection \<open>The condition builder\<close>

text \<open>
  \<^verbatim>\<open>where(field, value, operator = 'AND')\<close>: the default applies when the argument is
  \<^verbatim>\<open>undefined\<close>.
\<close>

definition where_db :: "string \<Rightarrow> jsval \<Rightarrow> prim \<Rightarrow> db \<Rightarrow> db" where
  "where_db f v operator s =
     s\<lparr>m_whereConditions := m_whereConditions s @
        [\<lparr>c_field = f,
          c_operator = (if operator = PUndefined then PStr ''AND'' else operator),
          c_value = v\<rparr>]\<rparr>"

definition orWhere :: "string \<Rightarrow> jsval \<Rightarrow> db \<Rightarrow> db" where
  "orWhere f v s = where_db f v (PStr ''OR'') s"

definition whereOperator :: "string \<Rightarrow> prim \<Rightarrow> jsval \<Rightarrow> db \<Rightarrow> db" where
  "whereOperator f operator v s =
     s\<lparr>m_whereConditions := m_whereConditions s @
        [\<lparr>c_field = f, c_operator = operator, c_value = v\<rparr>]\<rparr>"

definition whereIn :: "string \<Rightarrow> jsval \<Rightarrow> db \<Rightarrow> unit outcome \<times> db" where
  "whereIn f vs s =
     (case vs of
        Prim p \<Rightarrow> (Throw ValuesMustBeArray, s)
      | Arr ps \<Rightarrow>
          (Return (),
           s\<lparr>m_whereConditions := m_whereConditions s @
              [\<lparr>c_field = f, c_operator = PStr ''IN'', c_value = vs\<rparr>]\<rparr>))"

definition whereLike :: "string \<Rightarrow> jsval \<Rightarrow> db \<Rightarrow> db" where
  "whereLike f pat s =
     s\<lparr>m_whereConditions := m_whereConditions s @
        [\<lparr>c_field = f, c_operator = PStr ''LIKE'', c_value = pat\<rparr>]\<rparr>"

definition search :: "(string \<times> prim) list \<Rightarrow> db \<Rightarrow> db" where
  "search conditions s = s\<lparr>m_searchConditions := conditions\<rparr>"

definition orderBy :: "string \<Rightarrow> string \<Rightarrow> db \<Rightarrow> db" where
  "orderBy col dir s =
     s\<lparr>m_orderBy := Some \<lparr>ob_column = col, ob_direction = toUpperCase dir\<rparr>\<rparr>"

definition limit_db :: "int \<Rightarrow> int \<Rightarrow> db \<Rightarrow> db" where
  "limit_db lim off s = s\<lparr>m_limit := Some lim, m_offset := off\<rparr>"

subsection \<open>The evaluator\<close>

text \<open>
  The \<^verbatim>\<open>switch\<close> of \<^verbatim>\<open>_applyConditions\<close> on one condition and one row. \<^verbatim>\<open>includes\<close> exists on
  arrays and on strings, \<^verbatim>\<open>replace\<close> on strings only; on any other value the call raises.
\<close>

definition eval_condition :: "row \<Rightarrow> condition \<Rightarrow> bool outcome" where
  "eval_condition r c =
     (let v = getProp r (c_field c) in
      if c_operator c = PStr ''IN'' then
        (case c_value c of
           Arr ps \<Rightarrow> Return (v \<in> set ps)
         | Prim (PStr t) \<Rightarrow> Return (str_includes t (ToString v))
         | Prim p \<Rightarrow> Throw TypeError)
      else if c_operator c = PStr ''LIKE'' then
        (case c_value c of
           Prim (PStr t) \<Rightarrow>
             Return (str_includes (ToString v) (filter (\<lambda>ch. ch \<noteq> CHR ''%'') t))
         | _ \<Rightarrow> Throw TypeError)
      else if c_operator c = PStr ''>'' then Return (js_gt v (ToPrimitive (c_value c)))
      else if c_operator c = PStr ''<'' then Return (js_lt v (ToPrimitive (c_value c)))
      else if c_operator c = PStr ''>='' then Return (js_ge v (ToPrimitive (c_value c)))
      else if c_operator c = PStr ''<='' then Return (js_le v (ToPrimitive (c_value c)))
      else if c_operator c = PStr ''!='' then Return (\<not> strict_eq v (c_value c))
      else Return (strict_eq v (c_value c)))"

text \<open>\<^verbatim>\<open>every\<close> stops at the first condition that fails, \<^verbatim>\<open>filter\<close> at the first raise.\<close>

fun every_condition :: "condition list \<Rightarrow> row \<Rightarrow> bool outcome" where
  "every_condition [] r = Return True"
| "every_condition (c # cs) r =
     (case eval_condition r c of
        Throw e \<Rightarrow> Throw e
      | Return b \<Rightarrow> if b then every_condition cs r else Return False)"

fun filter_rows :: "(row \<Rightarrow> bool outcome) \<Rightarrow> row list \<Rightarrow> row list outcome" where
  "filter_rows p [] = Return []"
| "filter_rows p (r # rs) =
     (case p r of
        Throw e \<Rightarrow> Throw e
      | Return b \<Rightarrow>
          (case filter_rows p rs of
             Throw e \<Rightarrow> Throw e
           | Return ks \<Rightarrow> Return (if b then r # ks else ks)))"

definition where_step :: "condition list \<Rightarrow> row list \<Rightarrow> row list outcome" where
  "where_step conds results =
     (if length conds > 0 then filter_rows (every_condition conds) results else Return results)"

definition search_match :: "row \<Rightarrow> string \<times> prim \<Rightarrow> bool" where
  "search_match r ct =
     str_includes (toLowerCase (ToString (getProp r (fst ct)))) (toLowerCase (ToString (snd ct)))"

definition search_step :: "(string \<times> prim) list \<Rightarrow> row list \<Rightarrow> row list" where
  "search_step scs results =
     (if length scs > 0 then filter (\<lambda>r. list_ex (search_match r) scs) results else results)"

text \<open>The comparator handed to \<^verbatim>\<open>sort\<close>.\<close>

definition compareFn :: "order_spec \<Rightarrow> row \<Rightarrow> row \<Rightarrow> int" where
  "compareFn ob a b =
     (if ob_direction ob = ''ASC''
      then (if js_gt (getProp a (ob_column ob)) (getProp b (ob_column ob)) then 1 else - 1)
      else (if js_lt (getProp a (ob_column ob)) (getProp b (ob_column ob)) then 1 else - 1))"

definition order_step :: "host_sort \<Rightarrow> order_spec option \<Rightarrow> row list \<Rightarrow> row list" where
  "order_step srt ob results =
     (case ob of None \<Rightarrow> results | Some spec \<Rightarrow> srt (compareFn spec) results)"

definition page_step :: "int option \<Rightarrow> int \<Rightarrow> row list \<Rightarrow> row list" where
  "page_step lim off results =
     (case lim of None \<Rightarrow> results
      | Some l \<Rightarrow> js_slice results off (round_double (off + l)))"

definition m_applyConditions :: "host_sort \<Rightarrow> db \<Rightarrow> row list \<Rightarrow> row list outcome" where
  "m_applyConditions srt s data =
     (case where_step (m_whereConditions s) data of
        Throw e \<Rightarrow> Throw e
      | Return results \<Rightarrow>
          Return (page_step (m_limit s) (m_offset s)
                   (order_step srt (m_orderBy s)
                     (search_step (m_searchConditions s) results))))"

subsection \<open>Reads\<close>

definition get_db :: "host_sort \<Rightarrow> string \<Rightarrow> db \<Rightarrow> row list outcome \<times> db" where
  "get_db srt tableName s =
     (case m_tables s tableName of
        None \<Rightarrow> (Throw (TableNotFound tableName), s)
      | Some a \<Rightarrow>
          (let results = arrays s a;
               visible = (if m_softDelete s
                          then filter (\<lambda>r. \<not> truthy (getProp r ''deleted_at'')) results
                          else results)
           in case m_applyConditions srt s visible of
                Throw e \<Rightarrow> (Throw e, s)
              | Return res \<Rightarrow> (Return res, m_log ''get'' (m_resetConditions s))))"

text \<open>
  \<^verbatim>\<open>getOne\<close>, \<^verbatim>\<open>count\<close>, \<^verbatim>\<open>distinct\<close>, \<^verbatim>\<open>avg\<close>, \<^verbatim>\<open>sum\<close>, \<^verbatim>\<open>min\<close>, \<^verbatim>\<open>max\<close>, \<^verbatim>\<open>groupBy\<close> and
  \<^verbatim>\<open>toJSON\<close> all start with \<^verbatim>\<open>this.get(tableName)\<close> and compute their value from the rows it
  returns: each is \<open>via_get\<close> of a function on the rows.
\<close>

definition via_get ::
  "(row list \<Rightarrow> 'a) \<Rightarrow> host_sort \<Rightarrow> string \<Rightarrow> db \<Rightarrow> 'a outcome \<times> db" where
  "via_get f srt tableName s =
     (case get_db srt tableName s of
        (Throw e, s') \<Rightarrow> (Throw e, s')
      | (Return results, s') \<Rightarrow> (Return (f results), s'))"

definition getOne :: "host_sort \<Rightarrow> string \<Rightarrow> db \<Rightarrow> row option outcome \<times> db" where
  "getOne = via_get (\<lambda>results. if length results > 0 then Some (results ! 0) else None)"

definition count_db :: "host_sort \<Rightarrow> string \<Rightarrow> db \<Rightarrow> nat outcome \<times> db" where
  "count_db = via_get length"

definition distinct_db :: "string \<Rightarrow> host_sort \<Rightarrow> string \<Rightarrow> db \<Rightarrow> prim list outcome \<times> db" where
  "distinct_db col = via_get (\<lambda>results. rev (remdups (rev (map (\<lambda>r. getProp r col) results))))"

definition raw :: "string \<Rightarrow> (row \<Rightarrow> bool) \<Rightarrow> db \<Rightarrow> row list outcome" where
  "raw tableName filterFn s =
     (case m_tables s tableName of
        None \<Rightarrow> Throw (TableNotFound tableName)
      | Some a \<Rightarrow> Return (filter filterFn (arrays s a)))"

definition getSchema :: "string \<Rightarrow> db \<Rightarrow> schema option" where
  "getSchema tableName s =
     (case m_schemas s of None \<Rightarrow> None | Some m \<Rightarrow> m tableName)"

definition getLastInsertId :: "db \<Rightarrow> prim \<times> db" where
  "getLastInsertId s =
     (if \<not> truthy (m_lastInsertId s) then (PNull, s)
      else (m_lastInsertId s, m_log ''getLastInsertId'' s))"

subsection \<open>Tables and schemas\<close>

definition store_schema :: "string \<Rightarrow> schema \<Rightarrow> db \<Rightarrow> db" where
  "store_schema tableName sch s =
     s\<lparr>m_schemas :=
         Some ((case m_schemas s of None \<Rightarrow> Map.empty | Some m \<Rightarrow> m)(tableName \<mapsto> sch))\<rparr>"

text \<open>\<^verbatim>\<open>this._tables.set(tableName, data)\<close> for an array \<open>data\<close> made by the call.\<close>

definition set_new_array :: "string \<Rightarrow> row list \<Rightarrow> db \<Rightarrow> db" where
  "set_new_array tableName data s =
     s\<lparr>m_tables := (m_tables s)(tableName \<mapsto> fresh s),
       arrays := (arrays s)(fresh s := data),
       fresh := Suc (fresh s)\<rparr>"

definition createTable :: "string \<Rightarrow> schema option \<Rightarrow> db \<Rightarrow> unit outcome \<times> db" where
  "createTable tableName sch s =
     (if m_tables s tableName \<noteq> None then (Throw (TableAlreadyExists tableName), s)
      else
        (let s1 = set_new_array tableName [] s;
             s2 = (case sch of None \<Rightarrow> s1 | Some sc \<Rightarrow> store_schema tableName sc s1)
         in (Return (), m_log ''createTable'' s2)))"

fun stamp_rows :: "row list \<Rightarrow> db \<Rightarrow> row list \<times> db" where
  "stamp_rows [] s = ([], s)"
| "stamp_rows (r # rs) s =
     (let (c, s1) = (if truthy (getProp r ''created_at'') then (getProp r ''created_at'', s)
                     else (let (t, sa) = toISOString s in (PStr t, sa)));
          (u, s2) = (if truthy (getProp r ''updated_at'') then (getProp r ''updated_at'', s1)
                     else (let (t, sa) = toISOString s1 in (PStr t, sa)));
          (rest, s3) = stamp_rows rs s2
      in (r(''created_at'' \<mapsto> c, ''updated_at'' \<mapsto> u) # rest, s3))"

text \<open>An array that the caller builds, as \<^verbatim>\<open>[...]\<close> does: a new reference in the heap.\<close>

definition new_array :: "row list \<Rightarrow> db \<Rightarrow> nat \<times> db" where
  "new_array data s = (fresh s, s\<lparr>arrays := (arrays s)(fresh s := data), fresh := Suc (fresh s)\<rparr>)"

text \<open>
  \<^verbatim>\<open>setTable\<close> validates before it stores anything. It is given the caller's array as a
  reference and stores that reference, or, with timestamps on, the new array that \<^verbatim>\<open>map\<close>
  returns.
\<close>

definition setTable :: "string \<Rightarrow> nat \<Rightarrow> schema option \<Rightarrow> db \<Rightarrow> unit outcome \<times> db" where
  "setTable tableName dataRef sch s =
     (case (case sch of None \<Rightarrow> Return () | Some sc \<Rightarrow> m_validateSchema (arrays s dataRef) sc) of
        Throw e \<Rightarrow> (Throw e, s)
      | Return u \<Rightarrow>
          (if m_timestamps s
           then (let (data1, s1) = stamp_rows (arrays s dataRef) s
                 in (Return (), m_log ''setTable'' (set_new_array tableName data1 s1)))
           else (Return (),
                 m_log ''setTable'' (s\<lparr>m_tables := (m_tables s)(tableName \<mapsto> dataRef)\<rparr>))))"

definition truncate_db :: "string \<Rightarrow> db \<Rightarrow> unit outcome \<times> db" where
  "truncate_db tableName s =
     (case m_tables s tableName of
        None \<Rightarrow> (Throw (TableNotFound tableName), s)
      | Some a \<Rightarrow> (Return (), m_log ''truncate'' (set_new_array tableName [] s)))"

definition updateSchema :: "string \<Rightarrow> schema \<Rightarrow> db \<Rightarrow> unit outcome \<times> db" where
  "updateSchema tableName sch s =
     (case m_tables s tableName of
        None \<Rightarrow> (Throw (TableNotFound tableName), s)
      | Some a \<Rightarrow>
          (let s1 = store_schema tableName sch s in
           case m_validateSchema (arrays s1 a) sch of
             Throw e \<Rightarrow> (Throw e, s1)
           | Return u \<Rightarrow> (Return (), m_log ''updateSchema'' s1)))"

subsection \<open>The mutation pipeline\<close>

definition insert_db :: "string \<Rightarrow> row \<Rightarrow> db \<Rightarrow> unit outcome \<times> db" where
  "insert_db tableName data s =
     (case m_tables s tableName of
        None \<Rightarrow> (Throw (TableNotFound tableName), s)
      | Some table \<Rightarrow>
          (let newData = (if getProp data ''id'' = PStr ''AUTO_INCREMENT''
                          then data(''id'' \<mapsto> PNum (m_getNextId tableName s)) else data);
               s1 = s\<lparr>m_lastInsertId := getProp newData ''id''\<rparr>;
               (newData2, s2) =
                 (if m_timestamps s1
                  then (let (c, sa) = toISOString s1; (u, sb) = toISOString sa
                        in (newData(''created_at'' \<mapsto> PStr c, ''updated_at'' \<mapsto> PStr u), sb))
                  else (newData, s1));
               (shouldInsert, s3) = m_trigger tableName ''insert'' None (Some newData2) s2;
               s4 = (if shouldInsert
                     then s3\<lparr>arrays := (arrays s3)(table := arrays s3 table @ [newData2])\<rparr>
                     else s3)
           in (Return (), m_log ''insert'' s4)))"

fun bulkInsert :: "string \<Rightarrow> row list \<Rightarrow> db \<Rightarrow> unit outcome \<times> db" where
  "bulkInsert tableName [] s = (Return (), s)"
| "bulkInsert tableName (data # dataArray) s =
     (case insert_db tableName data s of
        (Throw e, s') \<Rightarrow> (Throw e, s')
      | (Return u, s') \<Rightarrow> bulkInsert tableName dataArray s')"

text \<open>
  The test that \<^verbatim>\<open>update\<close> and \<^verbatim>\<open>delete\<close> apply to a row:
  \<^verbatim>\<open>this._whereConditions.every(condition => row[condition.field] === condition.value)\<close>.
\<close>

definition matches_all :: "condition list \<Rightarrow> row \<Rightarrow> bool" where
  "matches_all conds r = list_all (\<lambda>c. strict_eq (getProp r (c_field c)) (c_value c)) conds"

fun update_rows :: "string \<Rightarrow> row \<Rightarrow> row list \<Rightarrow> db \<Rightarrow> row list \<times> db" where
  "update_rows tableName updateData [] s = ([], s)"
| "update_rows tableName updateData (r # rs) s =
     (let shouldUpdate = matches_all (m_whereConditions s) r;
          newData = (if shouldUpdate then r ++ updateData else r);
          (shouldUpdate2, s1) =
            (if shouldUpdate then m_trigger tableName ''update'' (Some r) (Some newData) s
             else (False, s));
          (rest, s2) = update_rows tableName updateData rs s1
      in ((if shouldUpdate2 then newData else r) # rest, s2))"

definition update_db :: "string \<Rightarrow> row \<Rightarrow> db \<Rightarrow> unit outcome \<times> db" where
  "update_db tableName data s =
     (case m_tables s tableName of
        None \<Rightarrow> (Throw (TableNotFound tableName), s)
      | Some a \<Rightarrow>
          (let (updateData, s1) =
                 (if m_timestamps s
                  then (let (t, sa) = toISOString s in (data(''updated_at'' \<mapsto> PStr t), sa))
                  else (data, s));
               (updatedTable, s2) = update_rows tableName updateData (arrays s1 a) s1
           in (Return (),
               m_resetConditions (m_log ''update'' (set_new_array tableName updatedTable s2)))))"

fun soft_delete_rows :: "string \<Rightarrow> row list \<Rightarrow> db \<Rightarrow> row list \<times> db" where
  "soft_delete_rows tableName [] s = ([], s)"
| "soft_delete_rows tableName (r # rs) s =
     (let (shouldDelete, s1) =
            (if matches_all (m_whereConditions s) r
             then m_trigger tableName ''delete'' (Some r) None s else (False, s));
          (r1, s2) = (if shouldDelete
                      then (let (t, sa) = toISOString s1 in (r(''deleted_at'' \<mapsto> PStr t), sa))
                      else (r, s1));
          (rest, s3) = soft_delete_rows tableName rs s2
      in (r1 # rest, s3))"

fun hard_delete_rows :: "string \<Rightarrow> row list \<Rightarrow> db \<Rightarrow> row list \<times> db" where
  "hard_delete_rows tableName [] s = ([], s)"
| "hard_delete_rows tableName (r # rs) s =
     (let (shouldDelete, s1) =
            (if matches_all (m_whereConditions s) r
             then m_trigger tableName ''delete'' (Some r) None s else (False, s));
          (rest, s2) = hard_delete_rows tableName rs s1
      in (if \<not> shouldDelete then r # rest else rest, s2))"

definition delete_db :: "string \<Rightarrow> db \<Rightarrow> unit outcome \<times> db" where
  "delete_db tableName s =
     (case m_tables s tableName of
        None \<Rightarrow> (Throw (TableNotFound tableName), s)
      | Some a \<Rightarrow>
          (let (newTable, s1) =
                 (if m_softDelete s then soft_delete_rows tableName (arrays s a) s
                  else hard_delete_rows tableName (arrays s a) s)
           in (Return (),
               m_resetConditions (m_log ''delete'' (set_new_array tableName newTable s1)))))"

subsection \<open>Backup, restore and transactions\<close>

text \<open>
  A backup holds, for each table name, the array that \<^verbatim>\<open>_tables\<close> holds for it: the same
  reference, not a copy of the rows. \<^verbatim>\<open>backup.data\<close> is a plain object, so the assignment
  \<^verbatim>\<open>backup.data[tableName] = data\<close> for the name \<^verbatim>\<open>__proto__\<close> sets the prototype of that
  object and adds no entry. \<^verbatim>\<open>metadata.tables\<close>, the list of names and row counts that
  \<^verbatim>\<open>restore\<close> never reads, is left out.
\<close>

record backup_obj =
  b_timestamp :: string
  b_data :: "string \<rightharpoonup> nat"
  b_relationships :: "string \<rightharpoonup> relation list"

fun replace_first :: "char \<Rightarrow> char \<Rightarrow> string \<Rightarrow> string" where
  "replace_first a b [] = []"
| "replace_first a b (c # cs) = (if c = a then b # cs else c # replace_first a b cs)"

definition m_getCurrentTimestamp :: "db \<Rightarrow> string \<times> db" where
  "m_getCurrentTimestamp s =
     (let (t, s1) = toISOString s in (replace_first (CHR ''T'') (CHR '' '') (take 19 t), s1))"

definition backup :: "db \<Rightarrow> backup_obj \<times> db" where
  "backup s =
     (let (t, s1) = m_getCurrentTimestamp s
      in (\<lparr>b_timestamp = t,
           b_data = (\<lambda>tableName. if tableName = ''__proto__'' then None
                                 else m_tables s1 tableName),
           b_relationships = m_relationships s1\<rparr>, s1))"

text \<open>For a backup of this shape nothing in the \<^verbatim>\<open>try\<close> block of \<^verbatim>\<open>restore\<close> can raise.\<close>

definition restore :: "backup_obj \<Rightarrow> db \<Rightarrow> unit outcome \<times> db" where
  "restore bk s =
     (Return (),
      m_log ''restore'' (s\<lparr>m_tables := b_data bk, m_relationships := b_relationships bk\<rparr>))"

definition transaction :: "(db \<Rightarrow> unit outcome \<times> db) \<Rightarrow> db \<Rightarrow> unit outcome \<times> db" where
  "transaction callback s =
     (let (bk, s0) = backup s in
      case callback s0 of
        (Return u, s1) \<Rightarrow> (Return (), m_log ''transaction'' s1)
      | (Throw e, s1) \<Rightarrow>
          (case restore bk s1 of
             (Throw e', s2) \<Rightarrow> (Throw e', s2)
           | (Return u, s2) \<Rightarrow> (Throw e, m_log ''transaction'' s2)))"

text \<open>A callback that inserts the given rows, in order, and then raises \<open>e\<close>.\<close>

fun inserts_then_raise :: "(string \<times> row) list \<Rightarrow> error \<Rightarrow> db \<Rightarrow> unit outcome \<times> db" where
  "inserts_then_raise [] e s = (Throw e, s)"
| "inserts_then_raise ((tableName, data) # pending) e s =
     (case insert_db tableName data s of
        (Throw e', s') \<Rightarrow> (Throw e', s')
      | (Return u, s') \<Rightarrow> inserts_then_raise pending e s')"

subsection \<open>A new store\<close>

text \<open>
  The state the constructor leaves, for a configuration and an environment. No array is
  allocated yet.
\<close>

definition new_db :: "bool \<Rightarrow> bool \<Rightarrow> bool \<Rightarrow> (nat \<Rightarrow> string) \<Rightarrow> db" where
  "new_db logging timestamps softDelete clk =
     \<lparr>m_tables = Map.empty, m_triggers = Map.empty, m_whereConditions = [],
      m_operator = ''AND'', m_orderBy = None, m_limit = None, m_offset = 0,
      m_searchConditions = [], m_relationships = Map.empty, m_logger = logging,
      m_timestamps = timestamps, m_softDelete = softDelete, m_schemas = None,
      m_lastInsertId = PUndefined, arrays = (\<lambda>a. []), fresh = 0, clock = clk, ticks = 0\<rparr>"

definition createTrigger :: "string \<Rightarrow> string \<Rightarrow> trigger \<Rightarrow> db \<Rightarrow> unit outcome \<times> db" where
  "createTrigger tableName triggerName trg s =
     (if m_tables s tableName = None then (Throw (TableNotFound tableName), s)
      else
        (let ts = (case m_triggers s tableName of None \<Rightarrow> [] | Some l \<Rightarrow> l) in
         if triggerName \<in> fst ` set ts then (Throw (TriggerAlreadyExists triggerName), s)
         else (Return (), s\<lparr>m_triggers := (m_triggers s)(tableName \<mapsto> ts @ [(triggerName, trg)])\<rparr>)))"

subsection \<open>Auxiliary notions for the properties\<close>

text \<open>The state after \<open>k\<close> further readings of the clock.\<close>

definition advance :: "nat \<Rightarrow> db \<Rightarrow> db" where
  "advance k s = s\<lparr>ticks := ticks s + k\<rparr>"

definition triggers_of :: "db \<Rightarrow> string \<Rightarrow> (string \<times> trigger) list" where
  "triggers_of s tableName = (case m_triggers s tableName of None \<Rightarrow> [] | Some ts \<Rightarrow> ts)"

text \<open>Some trigger of the list returns \<^verbatim>\<open>false\<close> on the given call.\<close>

definition vetoes ::
  "(string \<times> trigger) list \<Rightarrow> string \<Rightarrow> row option \<Rightarrow> row option \<Rightarrow> bool" where
  "vetoes ts operation OLD NEW =
     list_ex (\<lambda>nt. snd nt operation OLD NEW = Returns (PBool False)) ts"

text \<open>How many triggers of the list raise on the given call.\<close>

definition raises_count ::
  "(string \<times> trigger) list \<Rightarrow> string \<Rightarrow> row option \<Rightarrow> row option \<Rightarrow> nat" where
  "raises_count ts operation OLD NEW =
     length (filter (\<lambda>nt. snd nt operation OLD NEW = Raises) ts)"

text \<open>The id of the row that \<^verbatim>\<open>insert\<close> builds from \<open>data\<close>.\<close>

definition assigned_id :: "string \<Rightarrow> row \<Rightarrow> db \<Rightarrow> prim" where
  "assigned_id tableName data s =
     (if getProp data ''id'' = PStr ''AUTO_INCREMENT'' then PNum (m_getNextId tableName s)
      else getProp data ''id'')"

text \<open>The row that \<^verbatim>\<open>insert\<close> builds from \<open>data\<close>, with its time stamps.\<close>

definition inserted_row :: "string \<Rightarrow> row \<Rightarrow> db \<Rightarrow> row" where
  "inserted_row tableName data s =
     (let newData = (if getProp data ''id'' = PStr ''AUTO_INCREMENT''
                     then data(''id'' \<mapsto> PNum (m_getNextId tableName s)) else data)
      in if m_timestamps s
         then newData(''created_at'' \<mapsto> PStr (clock s (ticks s)),
                      ''updated_at'' \<mapsto> PStr (clock s (Suc (ticks s))))
         else newData)"

text \<open>The rows that \<^verbatim>\<open>get\<close> hands to \<^verbatim>\<open>_applyConditions\<close>.\<close>

definition visible_rows :: "db \<Rightarrow> nat \<Rightarrow> row list" where
  "visible_rows s a =
     (if m_softDelete s then filter (\<lambda>r. \<not> truthy (getProp r ''deleted_at'')) (arrays s a)
      else arrays s a)"

text \<open>
  The next id in the words of the specification: the maximum of the existing integer ids
  and \<open>0\<close>, plus one, an id that is missing or not an integer counting as \<open>0\<close>.
\<close>

definition spec_next_id :: "row list \<Rightarrow> int" where
  "spec_next_id table = Max (insert 0 (set (map id_or_zero table))) + 1"

text \<open>
  A consistent comparator: the three-way comparison of a key, which is \<open>0\<close> on rows with
  equal keys.
\<close>

definition three_way :: "(row \<Rightarrow> 'k::linorder) \<Rightarrow> row \<Rightarrow> row \<Rightarrow> int" where
  "three_way key a b = (if key a < key b then - 1 else if key a = key b then 0 else 1)"

subsection \<open>Two host sorts\<close>

text \<open>
  One possible host sort, for the examples: an insertion sort that moves a row to the right
  while the comparator is positive.
\<close>

fun insert_by :: "(row \<Rightarrow> row \<Rightarrow> int) \<Rightarrow> row \<Rightarrow> row list \<Rightarrow> row list" where
  "insert_by cmp x [] = [x]"
| "insert_by cmp x (y # ys) = (if cmp x y > 0 then y # insert_by cmp x ys else x # y # ys)"

definition insertion_sort_host :: host_sort where
  "insertion_sort_host cmp xs = foldr (insert_by cmp) xs []"

text \<open>
  A second possible host sort: an insertion sort that takes the rows from left to right and
  puts each one before the first row for which the comparator, called with the new row
  first, is negative.
\<close>

fun insert_before :: "(row \<Rightarrow> row \<Rightarrow> int) \<Rightarrow> row \<Rightarrow> row list \<Rightarrow> row list" where
  "insert_before cmp x [] = [x]"
| "insert_before cmp x (y # ys) =
     (if cmp x y < 0 then x # y # ys else y # insert_before cmp x ys)"

definition forward_insertion_host :: host_sort where
  "forward_insertion_host cmp xs = foldl (\<lambda>acc x. insert_before cmp x acc) [] xs"

subsection \<open>Example data\<close>

definition iso_clock :: "nat \<Rightarrow> string" where
  "iso_clock n = ''2025-01-01T00:00:00.000Z''"

definition name_required :: schema where
  "name_required =
     [(''name'', \<lparr>r_required = True, r_type = None, r_min = None, r_max = None,
                  r_length = None, r_pattern = None\<rparr>)]"

definition id_required :: schema where
  "id_required =
     [(''id'', \<lparr>r_required = True, r_type = None, r_min = None, r_max = None,
                r_length = None, r_pattern = None\<rparr>)]"

text \<open>
  A new store without logging, timestamps or soft deletion, in which the table \<open>users\<close> is
  created with a schema (or none) and the given rows are then inserted.
\<close>

definition users_store :: "row list \<Rightarrow> schema option \<Rightarrow> db" where
  "users_store rows sch =
     snd (bulkInsert ''users'' rows
           (snd (createTable ''users'' sch (new_db False False False iso_clock))))"

definition two_inserts_then_raise :: "db \<Rightarrow> unit outcome \<times> db" where
  "two_inserts_then_raise =
     inserts_then_raise
       [(''users'', [''id'' \<mapsto> PNum 1]), (''users'', [''id'' \<mapsto> PNum 2])]
       (UserError ''stop'')"

definition adult :: row where
  "adult = [''id'' \<mapsto> PNum 1, ''age'' \<mapsto> PNum 30]"

definition twin :: row where
  "twin = [''id'' \<mapsto> PNum 2, ''age'' \<mapsto> PNum 30]"

definition minor :: row where
  "minor = [''id'' \<mapsto> PNum 3, ''age'' \<mapsto> PNum 12]"

definition auto_row :: row where
  "auto_row = [''id'' \<mapsto> PStr ''AUTO_INCREMENT'']"

text \<open>The store \<open>users_store\<close> with a trigger on \<open>users\<close> that vetoes every operation.\<close>

definition deny_all :: trigger where
  "deny_all operation OLD NEW = Returns (PBool False)"

definition guarded_store :: db where
  "guarded_store = snd (createTrigger ''users'' ''deny'' deny_all (users_store [] None))"

text \<open>A store in which the tables \<open>a\<close> and \<open>b\<close> were both set to one empty array of the caller.\<close>

definition shared_store :: db where
  "shared_store =
     (let (r, s1) = new_array [] (new_db False False False iso_clock)
      in snd (setTable ''b'' r None (snd (setTable ''a'' r None s1))))"

text \<open>
  A store with soft deletion on and the rows \<open>adult\<close> and \<open>minor\<close> in \<open>users\<close>.
\<close>

definition soft_users :: db where
  "soft_users =
     snd (bulkInsert ''users'' [adult, minor]
           (snd (createTable ''users'' None (new_db False False True iso_clock))))"

section \<open>Properties\<close>

lemmas store_eval =
  createTable_def new_db_def set_new_array_def store_schema_def m_log_def insert_db_def
  getProp_def m_trigger_def getSchema_def rows_of_def check_rules_def Let_def
  users_store_def iso_clock_def

subsection \<open>The clock and the triggers\<close>

lemma advance_fields [simp]:
  "m_tables (advance k s) = m_tables s"
  "m_triggers (advance k s) = m_triggers s"
  "m_whereConditions (advance k s) = m_whereConditions s"
  "m_operator (advance k s) = m_operator s"
  "m_orderBy (advance k s) = m_orderBy s"
  "m_limit (advance k s) = m_limit s"
  "m_offset (advance k s) = m_offset s"
  "m_searchConditions (advance k s) = m_searchConditions s"
  "m_relationships (advance k s) = m_relationships s"
  "m_logger (advance k s) = m_logger s"
  "m_timestamps (advance k s) = m_timestamps s"
  "m_softDelete (advance k s) = m_softDelete s"
  "m_schemas (advance k s) = m_schemas s"
  "m_lastInsertId (advance k s) = m_lastInsertId s"
  "arrays (advance k s) = arrays s"
  "fresh (advance k s) = fresh s"
  "clock (advance k s) = clock s"
  "ticks (advance k s) = ticks s + k"
  by (simp_all add: advance_def)

lemma advance_advance [simp]: "advance k (advance j s) = advance (j + k) s"
  by (simp add: advance_def)

lemma advance_0 [simp]: "advance 0 s = s"
  by (simp add: advance_def)

lemma toISOString_advance: "toISOString s = (clock s (ticks s), advance 1 s)"
  by (simp add: toISOString_def advance_def)

lemma m_log_advance: "m_log operation s = advance (if m_logger s then 1 else 0) s"
  by (simp add: m_log_def toISOString_advance)

lemma run_triggers_fst:
  "fst (run_triggers ts operation OLD NEW b s) = (b \<and> \<not> vetoes ts operation OLD NEW)"
  by (induction ts arbitrary: b s) (auto simp: vetoes_def split: trigger_result.splits if_splits)

lemma run_triggers_snd:
  "snd (run_triggers ts operation OLD NEW b s)
     = advance (if m_logger s then raises_count ts operation OLD NEW else 0) s"
proof (induction ts arbitrary: b s)
  case Nil
  show ?case by (simp add: raises_count_def)
next
  case (Cons nt ts)
  obtain n trg where nt: "nt = (n, trg)" by (cases nt)
  show ?case
  proof (cases "trg operation OLD NEW")
    case (Returns v)
    then show ?thesis using Cons.IH nt by (simp add: raises_count_def)
  next
    case Raises
    then show ?thesis using Cons.IH nt by (simp add: raises_count_def m_log_advance)
  qed
qed

lemma m_trigger_eq:
  "m_trigger t operation OLD NEW s
     = (\<not> vetoes (triggers_of s t) operation OLD NEW,
        advance (if m_logger s then raises_count (triggers_of s t) operation OLD NEW else 0) s)"
  by (simp add: m_trigger_def triggers_of_def prod_eq_iff run_triggers_fst run_triggers_snd)

lemma triggers_of_simps [simp]:
  "triggers_of (advance k s) t = triggers_of s t"
  "triggers_of (s\<lparr>m_lastInsertId := v\<rparr>) t = triggers_of s t"
  "triggers_of (s\<lparr>arrays := h\<rparr>) t = triggers_of s t"
  "triggers_of (s\<lparr>ticks := n\<rparr>) t = triggers_of s t"
  by (simp_all add: triggers_of_def)

subsection \<open>Inserts and schemas\<close>

lemma inserted_row_id: "getProp (inserted_row t data s) ''id'' = assigned_id t data s"
  by (simp add: inserted_row_def assigned_id_def getProp_def Let_def)

lemma insert_db_shape:
  assumes "m_tables s t = Some a"
  shows "\<exists>k. insert_db t data s =
               (Return (),
                advance k (s\<lparr>m_lastInsertId := assigned_id t data s,
                            arrays := (if vetoes (triggers_of s t) ''insert'' None
                                            (Some (inserted_row t data s))
                                       then arrays s
                                       else (arrays s)(a := arrays s a @ [inserted_row t data s]))\<rparr>))"
proof (cases "m_timestamps s")
  case True
  let ?j = "if m_logger s then raises_count (triggers_of s t) ''insert'' None (Some (inserted_row t data s)) else 0"
  have "insert_db t data s =
               (Return (),
                advance (2 + ?j + (if m_logger s then 1 else 0)) (s\<lparr>m_lastInsertId := assigned_id t data s,
                            arrays := (if vetoes (triggers_of s t) ''insert'' None
                                            (Some (inserted_row t data s))
                                       then arrays s
                                       else (arrays s)(a := arrays s a @ [inserted_row t data s]))\<rparr>))"
    using assms True
    by (simp add: insert_db_def Let_def toISOString_advance m_trigger_eq m_log_advance
          inserted_row_def assigned_id_def getProp_def advance_def)
  then show ?thesis by blast
next
  case False
  let ?j = "if m_logger s then raises_count (triggers_of s t) ''insert'' None (Some (inserted_row t data s)) else 0"
  have "insert_db t data s =
               (Return (),
                advance (?j + (if m_logger s then 1 else 0)) (s\<lparr>m_lastInsertId := assigned_id t data s,
                            arrays := (if vetoes (triggers_of s t) ''insert'' None
                                            (Some (inserted_row t data s))
                                       then arrays s
                                       else (arrays s)(a := arrays s a @ [inserted_row t data s]))\<rparr>))"
    using assms False
    by (simp add: insert_db_def Let_def toISOString_advance m_trigger_eq m_log_advance
          inserted_row_def assigned_id_def getProp_def advance_def)
  then show ?thesis by blast
qed

text \<open>
  An insert into an existing table always returns normally and never touches the schemas,
  whatever schema the table has.
\<close>

lemma insert_db_always_returns:
  assumes "m_tables s t = Some a"
  shows "fst (insert_db t data s) = Return ()"
    and "m_schemas (snd (insert_db t data s)) = m_schemas s"
  using insert_db_shape[OF assms, of data] by auto

text \<open>
  C1. The claim: an insert of a row that violates the schema attached to its table raises a
  schema validation error and leaves the rows of the table as they were. The code of
  \<^verbatim>\<open>insert\<close> never reads \<^verbatim>\<open>_schemas\<close>: in a table created with a schema that requires
  \<open>name\<close>, the insert of a row without \<open>name\<close>, which \<^verbatim>\<open>_validateSchema\<close> rejects, returns
  normally and the row is stored.
\<close>

theorem insert_ignores_schema:
  "getSchema ''users'' (users_store [] (Some name_required)) = Some name_required
   \<and> rows_of (users_store [] (Some name_required)) ''users'' = Some []
   \<and> m_validateSchema [[''id'' \<mapsto> PNum 1]] name_required
       = Throw (SchemaValidationError ''name'' Required)
   \<and> fst (insert_db ''users'' [''id'' \<mapsto> PNum 1] (users_store [] (Some name_required)))
       = Return ()
   \<and> rows_of (snd (insert_db ''users'' [''id'' \<mapsto> PNum 1]
                      (users_store [] (Some name_required)))) ''users''
       = Some [[''id'' \<mapsto> PNum 1]]"
  by (simp add: store_eval name_required_def)

text \<open>
  After \<^verbatim>\<open>updateSchema\<close> on an existing table the stored schema is the new one, whether the
  call raised or not.
\<close>

lemma updateSchema_always_stores:
  assumes "m_tables s t = Some a"
  shows "getSchema t (snd (updateSchema t sch s)) = Some sch"
  using assms
  by (simp add: updateSchema_def getSchema_def store_schema_def m_log_advance Let_def
        split: outcome.splits)

text \<open>
  C3. The claim: when the rows of a table violate a new schema, \<^verbatim>\<open>updateSchema\<close> raises a
  schema validation error and the stored schema stays as it was. The code stores the new
  schema first and validates afterwards: the error is raised, and the schema of the table is
  the new one.
\<close>

theorem updateSchema_stores_rejected_schema:
  "getSchema ''users'' (users_store [[''id'' \<mapsto> PNum 1]] (Some id_required)) = Some id_required
   \<and> fst (updateSchema ''users'' name_required
            (users_store [[''id'' \<mapsto> PNum 1]] (Some id_required)))
       = Throw (SchemaValidationError ''name'' Required)
   \<and> getSchema ''users'' (snd (updateSchema ''users'' name_required
                                 (users_store [[''id'' \<mapsto> PNum 1]] (Some id_required))))
       = Some name_required
   \<and> name_required \<noteq> id_required"
  by (simp add: store_eval updateSchema_def name_required_def id_required_def)

subsection \<open>The last insert id\<close>

text \<open>
  C9. The claim: every insert on an existing table records the id of the new row, so that
  after an insert that a trigger vetoes \<^verbatim>\<open>getLastInsertId\<close> returns the id of the vetoed
  row. \<^verbatim>\<open>insert\<close> records the id whether or not the row is vetoed: under a trigger that
  vetoes every row, the id \<open>7\<close> is recorded and returned although no row is appended. But
  \<^verbatim>\<open>getLastInsertId\<close> tests the recorded id with \<^verbatim>\<open>!\<close>: after the vetoed insert of a row
  with id \<open>0\<close> the store holds \<open>0\<close> and the accessor returns \<^verbatim>\<open>null\<close>. It returns \<^verbatim>\<open>null\<close> as
  well after an insert of id \<open>0\<close> that no trigger vetoes and that is stored, where its
  documentation promises the last inserted id, and \<^verbatim>\<open>null\<close> only when there was no insert.
\<close>

theorem getLastInsertId_null_after_insert_of_zero:
  "m_lastInsertId (snd (insert_db ''users'' [''id'' \<mapsto> PNum 7] guarded_store)) = PNum 7
   \<and> rows_of (snd (insert_db ''users'' [''id'' \<mapsto> PNum 7] guarded_store)) ''users'' = Some []
   \<and> fst (getLastInsertId (snd (insert_db ''users'' [''id'' \<mapsto> PNum 7] guarded_store))) = PNum 7
   \<and> m_lastInsertId (snd (insert_db ''users'' [''id'' \<mapsto> PNum 0] guarded_store)) = PNum 0
   \<and> rows_of (snd (insert_db ''users'' [''id'' \<mapsto> PNum 0] guarded_store)) ''users'' = Some []
   \<and> fst (getLastInsertId (snd (insert_db ''users'' [''id'' \<mapsto> PNum 0] guarded_store))) = PNull
   \<and> rows_of (snd (insert_db ''users'' [''id'' \<mapsto> PNum 0] (users_store [] None))) ''users''
       = Some [[''id'' \<mapsto> PNum 0]]
   \<and> fst (getLastInsertId (snd (insert_db ''users'' [''id'' \<mapsto> PNum 0] (users_store [] None))))
       = PNull"
  by (simp add: guarded_store_def createTrigger_def store_eval getLastInsertId_def deny_all_def)

subsection \<open>Rounding\<close>

text \<open>
  An integer of at most 53 bits, and \<open>2\<^sup>5\<^sup>3\<close> itself, is a double; a 54-bit integer is
  rounded to an even one, and \<open>2\<^sup>5\<^sup>3 + 1\<close> to \<open>2\<^sup>5\<^sup>3\<close>.
\<close>

lemma bit_length_le: "m < 2 ^ k \<Longrightarrow> bit_length m \<le> k"
proof (induction k arbitrary: m)
  case 0
  then show ?case by (simp add: bit_length.simps)
next
  case (Suc k)
  show ?case
  proof (cases "m = 0")
    case True
    then show ?thesis by (simp add: bit_length.simps)
  next
    case False
    have "m div 2 < 2 ^ k" using Suc.prems by auto
    from Suc.IH[OF this] show ?thesis using False by (simp add: bit_length.simps[of m])
  qed
qed

lemma round_double_safe: "\<bar>x\<bar> < 2 ^ 53 \<Longrightarrow> round_double x = x"
proof -
  assume "\<bar>x\<bar> < 2 ^ 53"
  then have "nat \<bar>x\<bar> < 2 ^ 53" by (simp add: nat_less_iff)
  then have "bit_length (nat \<bar>x\<bar>) \<le> 53" by (rule bit_length_le)
  then show ?thesis by (simp add: round_double_def Let_def)
qed

lemma bit_length_pow: "bit_length (2 ^ k) = Suc k"
proof (induction k)
  case 0
  have "bit_length 1 = Suc (bit_length 0)" by (subst bit_length.simps) simp
  then show ?case by (simp add: bit_length.simps[of 0])
next
  case (Suc k)
  have "bit_length (2 ^ Suc k) = Suc (bit_length (2 ^ Suc k div 2))"
    by (subst bit_length.simps) simp
  then show ?case using Suc by simp
qed

lemma round_double_exact: "\<bar>x\<bar> \<le> 2 ^ 53 \<Longrightarrow> round_double x = x"
proof -
  assume a: "\<bar>x\<bar> \<le> 2 ^ 53"
  show ?thesis
  proof (cases "\<bar>x\<bar> < 2 ^ 53")
    case True
    then show ?thesis by (rule round_double_safe)
  next
    case False
    with a have e: "\<bar>x\<bar> = 2 ^ 53" by simp
    then have n: "nat \<bar>x\<bar> = 2 ^ 53" by simp
    have s: "sgn x * 2 ^ 53 = x" using e by (cases "x < 0") simp_all
    have bl: "bit_length (nat \<bar>x\<bar>) - 53 = 1" using bit_length_pow[of 53] n by simp
    have "round_double x = sgn x * int (2 ^ 53 div 2 ^ 1 * 2 ^ 1)"
      unfolding round_double_def Let_def bl unfolding n by simp
    then show ?thesis using s by simp
  qed
qed

lemma bit_length_between: "2 ^ k \<le> m \<Longrightarrow> m < 2 ^ Suc k \<Longrightarrow> bit_length m = Suc k"
proof (induction k arbitrary: m)
  case 0
  then have "m = 1" by simp
  have "bit_length 1 = Suc (bit_length 0)" by (subst bit_length.simps) simp
  then show ?case using \<open>m = 1\<close> by (simp add: bit_length.simps[of 0])
next
  case (Suc k)
  have "2 ^ k \<le> m div 2" "m div 2 < 2 ^ Suc k" using Suc.prems by auto
  then have "bit_length (m div 2) = Suc k" by (rule Suc.IH)
  moreover have "m \<noteq> 0" using Suc.prems(1) by (cases "m = 0") simp_all
  ultimately show ?case by (subst bit_length.simps) simp
qed

lemma round_double_54:
  assumes "2 ^ 53 \<le> n" and "n < 2 ^ 54"
  shows "round_double (int n)
           = int (if n mod 4 = 3 then n + 1 else if n mod 4 = 1 then n - 1 else n)"
proof -
  have "bit_length n = Suc 53"
    using assms by (intro bit_length_between) simp_all
  then have bl: "bit_length n - 53 = 1" by simp
  have p: "0 < n" using assms(1) by (cases "n = 0") simp_all
  then have a: "nat \<bar>int n\<bar> = n" "sgn (int n) = 1" by simp_all
  define q' where "q' = (if 2 * (n mod 2) > 2 \<or> (2 * (n mod 2) = 2 \<and> odd (n div 2))
                         then n div 2 + 1 else n div 2)"
  have r: "round_double (int n) = int (q' * 2)"
    unfolding round_double_def Let_def a bl q'_def by simp
  have e: "q' * 2 = (if n mod 4 = 3 then n + 1 else if n mod 4 = 1 then n - 1 else n)"
    unfolding q'_def using p by presburger
  show ?thesis by (simp only: r e)
qed

lemma round_double_above_safe: "round_double 9007199254740993 = 9007199254740992"
  using round_double_54[of 9007199254740993] by simp

lemma round_double_even:
  assumes "2 ^ 53 \<le> x" and "x < 2 ^ 54" and "even x"
  shows "round_double x = x"
proof -
  define n where "n = nat x"
  have p: "0 \<le> x" using assms(1) by (simp add: order_trans[of 0 "2 ^ 53" x])
  then have x: "x = int n" by (simp add: n_def)
  have b: "2 ^ 53 \<le> n" "n < 2 ^ 54" using assms(1,2) x by simp_all
  have e: "even n" using assms(3) x by simp
  have "n mod 4 \<noteq> 3 \<and> n mod 4 \<noteq> 1" using e by presburger
  then have "round_double (int n) = int n" using round_double_54[OF b] by simp
  then show ?thesis using x by simp
qed

subsection \<open>Reading back a printed integer\<close>

text \<open>
  \<^verbatim>\<open>parseInt\<close> reads a safe integer back from the string that the language prints for it.
\<close>

lemma below_ten: "d < 10 \<Longrightarrow> d \<in> {0, 1, 2, 3, 4, 5, 6, 7, 8, 9 :: nat}"
  by auto

lemma digit_char_facts:
  assumes "d < 10"
  shows "digit_val (digit_char d) = Some d"
    and "\<not> is_space (digit_char d)"
    and "digit_char d \<noteq> CHR ''-''" and "digit_char d \<noteq> CHR ''+''"
    and "digit_char d \<noteq> CHR ''x''" and "digit_char d \<noteq> CHR ''X''"
  using below_ten[OF assms] by (auto simp: digit_char_def digit_val_def is_space_def)

lemma digits_value_snoc: "digits_value R (ds @ [d]) = digits_value R ds * R + d"
  by (simp add: digits_value_def)

lemma nat_digits_shape:
  "\<exists>ds. nat_digits n = map digit_char ds \<and> ds \<noteq> [] \<and> (\<forall>d \<in> set ds. d < 10)
        \<and> digits_value 10 ds = n"
proof (induction n rule: nat_digits.induct)
  case (1 n)
  show ?case
  proof (cases "n < 10")
    case True
    then have "nat_digits n = map digit_char [n]" by (simp add: nat_digits.simps)
    moreover have "digits_value 10 [n] = n" by (simp add: digits_value_def)
    ultimately show ?thesis using True by (intro exI[of _ "[n]"]) simp
  next
    case False
    with "1.IH" obtain ds where ds: "nat_digits (n div 10) = map digit_char ds" "ds \<noteq> []"
      "\<forall>d \<in> set ds. d < 10" "digits_value 10 ds = n div 10" by blast
    have "nat_digits n = map digit_char (ds @ [n mod 10])"
      using False ds(1) by (simp add: nat_digits.simps[of n])
    moreover have "digits_value 10 (ds @ [n mod 10]) = n"
      using ds(4) by (simp add: digits_value_snoc)
    ultimately show ?thesis using ds(2,3) by (intro exI[of _ "ds @ [n mod 10]"]) auto
  qed
qed

lemma radix_prefix_digits:
  "\<forall>d \<in> set ds. d < 10 \<Longrightarrow> radix_prefix 10 (map digit_char ds) = ds"
  by (induction ds) (simp_all add: digit_char_facts)

lemma parseInt_string_digits:
  assumes "ds \<noteq> []" and "\<forall>d \<in> set ds. d < 10"
  shows "parseInt_string (map digit_char ds) = Some (round_double (int (digits_value 10 ds)))"
    and "parseInt_string (CHR ''-'' # map digit_char ds)
           = Some (round_double (- int (digits_value 10 ds)))"
proof -
  obtain d ds' where ds: "ds = d # ds'" using assms(1) by (cases ds) auto
  have d: "d < 10" using assms(2) ds by simp
  have nohex: "(case map digit_char ds of a # b # cs \<Rightarrow> a = CHR ''0'' \<and> (b = CHR ''x'' \<or> b = CHR ''X'')
                 | _ \<Rightarrow> False) = False"
    using assms(2) ds by (cases ds') (auto simp: digit_char_facts)
  have sp: "dropWhile is_space (map digit_char ds) = map digit_char ds"
    using d ds by (simp add: digit_char_facts)
  have sp2: "dropWhile is_space (CHR ''-'' # map digit_char ds) = CHR ''-'' # map digit_char ds"
    by (simp add: is_space_def)
  have hd: "map digit_char ds = digit_char d # map digit_char ds'" using ds by simp
  show "parseInt_string (map digit_char ds) = Some (round_double (int (digits_value 10 ds)))"
    unfolding parseInt_string_def sp Let_def
    using nohex assms radix_prefix_digits[OF assms(2)] d
    by (simp add: hd digit_char_facts del: list.map)
  show "parseInt_string (CHR ''-'' # map digit_char ds)
          = Some (round_double (- int (digits_value 10 ds)))"
    unfolding parseInt_string_def sp2 Let_def
    using nohex assms radix_prefix_digits[OF assms(2)]
    by simp
qed

lemma parseInt_PNum:
  assumes "\<bar>n\<bar> < 2 ^ 53"
  shows "parseInt (PNum n) = Some n"
proof (cases "n < 0")
  case True
  have small: "nat (- n) < 2 ^ 53" using assms True by (simp add: nat_less_iff)
  obtain ds where ds: "nat_digits (nat (- n)) = map digit_char ds" "ds \<noteq> []"
      "\<forall>d \<in> set ds. d < 10" "digits_value 10 ds = nat (- n)"
    using nat_digits_shape by blast
  have "parseInt (PNum n) = Some (round_double n)"
    using True small ds parseInt_string_digits(2)[OF ds(2,3)]
    by (simp add: parseInt_def int_string_def number_string_def)
  then show ?thesis using assms by (simp add: round_double_safe)
next
  case False
  have small: "nat n < 2 ^ 53" using assms False by (simp add: nat_less_iff)
  obtain ds where ds: "nat_digits (nat n) = map digit_char ds" "ds \<noteq> []"
      "\<forall>d \<in> set ds. d < 10" "digits_value 10 ds = nat n"
    using nat_digits_shape by blast
  have "parseInt (PNum n) = Some (round_double n)"
    using False small ds parseInt_string_digits(1)[OF ds(2,3)]
    by (simp add: parseInt_def int_string_def number_string_def)
  then show ?thesis using assms by (simp add: round_double_safe)
qed


lemma int_string_two_to_53: "int_string 9007199254740992 = ''9007199254740992''"
  by (simp add: int_string_def number_string_def big_string_def shortest_digits.simps
       nat_digits.simps strip_zeros.simps round_double_safe round_double_even Let_def digit_char_def)

subsection \<open>Automatic ids\<close>

lemma id_or_zero_PNum: "getProp r ''id'' = PNum k \<Longrightarrow> \<bar>k\<bar> < 2 ^ 53 \<Longrightarrow> id_or_zero r = k"
  by (simp add: id_or_zero_def parseInt_PNum)

lemma m_getNextId_rows:
  "m_tables s t = Some a \<Longrightarrow>
   m_getNextId t s = (if arrays s a = [] then 1
                      else round_double (Max (set (map id_or_zero (arrays s a))) + 1))"
  by (simp add: m_getNextId_def Let_def)

lemma Max_ids_bounded:
  assumes "rows \<noteq> []" and "\<forall>r \<in> set rows. \<bar>id_or_zero r\<bar> < B"
  shows "\<bar>Max (set (map id_or_zero rows))\<bar> < B"
proof -
  have "Max (set (map id_or_zero rows)) \<in> set (map id_or_zero rows)"
    using assms(1) by (intro Max_in) auto
  then show ?thesis using assms(2) by auto
qed

lemma next_id_after_append:
  assumes "id_or_zero nd = (if rows = [] then 1 else Max (set (map id_or_zero rows)) + 1)"
  shows "Max (set (map id_or_zero (rows @ [nd]))) = id_or_zero nd"
proof (cases "rows = []")
  case True
  then show ?thesis by simp
next
  case False
  then have ne: "set (map id_or_zero rows) \<noteq> {}" by simp
  have "Max (set (map id_or_zero (rows @ [nd])))
          = max (id_or_zero nd) (Max (set (map id_or_zero rows)))"
    using ne by (simp add: Max_insert)
  then show ?thesis using assms False by simp
qed

lemma spec_next_id_agrees:
  assumes "\<exists>r \<in> set rows. 0 \<le> id_or_zero r"
  shows "Max (set (map id_or_zero rows)) + 1 = spec_next_id rows"
proof -
  from assms obtain r where r: "r \<in> set rows" "0 \<le> id_or_zero r" by blast
  have fin: "finite (set (map id_or_zero rows))" by simp
  have ne: "set (map id_or_zero rows) \<noteq> {}" using r by auto
  have "id_or_zero r \<le> Max (set (map id_or_zero rows))"
    using r(1) by (intro Max_ge) auto
  then have "0 \<le> Max (set (map id_or_zero rows))" using r(2) by linarith
  moreover have "Max (insert 0 (set (map id_or_zero rows)))
        = max 0 (Max (set (map id_or_zero rows)))"
    using fin ne by (rule Max_insert)
  ultimately show ?thesis by (simp add: spec_next_id_def)
qed

lemma no_triggers_no_veto: "triggers_of s t = [] \<Longrightarrow> \<not> vetoes (triggers_of s t) operation OLD NEW"
  by (simp add: vetoes_def)

text \<open>
  C5, amended. On an existing table that has no triggers, an insert with the sentinel id
  assigns the id that \<^verbatim>\<open>_getNextId\<close> computes and appends the row that carries it. That id
  is \<open>1\<close> on an empty table. While every \<^verbatim>\<open>parseInt(row.id) || 0\<close> over the rows of the table
  is below \<open>2\<^sup>5\<^sup>3 - 1\<close> in absolute value, so that the additions of the code are exact, the
  id is one more than the largest of these values when the table has rows, it is the maximum
  of the ids and \<open>0\<close>, plus one, whenever the table is empty or some row has a value of at
  least \<open>0\<close>, and the insert raises the next id by one. An insert into another table without
  triggers that holds a different array does not change the next id.
\<close>

theorem auto_increment_ids:
  assumes "m_tables s t = Some a" and "getProp data ''id'' = PStr ''AUTO_INCREMENT''"
    and "triggers_of s t = []"
  shows "m_lastInsertId (snd (insert_db t data s)) = PNum (m_getNextId t s)
       \<and> arrays (snd (insert_db t data s)) a = arrays s a @ [inserted_row t data s]
       \<and> getProp (inserted_row t data s) ''id'' = PNum (m_getNextId t s)
       \<and> (arrays s a = [] \<longrightarrow> m_getNextId t s = 1)
       \<and> ((\<forall>r \<in> set (arrays s a). \<bar>id_or_zero r\<bar> < 2 ^ 53 - 1) \<longrightarrow>
            (arrays s a \<noteq> [] \<longrightarrow>
               m_getNextId t s = Max (set (map id_or_zero (arrays s a))) + 1)
          \<and> (arrays s a = [] \<or> (\<exists>r \<in> set (arrays s a). 0 \<le> id_or_zero r) \<longrightarrow>
               m_getNextId t s = spec_next_id (arrays s a))
          \<and> m_getNextId t (snd (insert_db t data s)) = m_getNextId t s + 1)
       \<and> (m_tables s t2 = Some a2 \<and> a2 \<noteq> a \<and> triggers_of s t2 = [] \<longrightarrow>
            m_getNextId t (snd (insert_db t2 data2 s)) = m_getNextId t s)"
proof -
  let ?nd = "inserted_row t data s"
  let ?s' = "snd (insert_db t data s)"
  let ?k = "m_getNextId t s"
  let ?rows = "arrays s a"
  have asg: "assigned_id t data s = PNum ?k" using assms(2) by (simp add: assigned_id_def)
  have nv: "\<not> vetoes (triggers_of s t) ''insert'' None (Some ?nd)"
    using assms(3) by (rule no_triggers_no_veto)
  from insert_db_shape[OF assms(1), of data] obtain k where sh:
    "insert_db t data s =
       (Return (),
        advance k (s\<lparr>m_lastInsertId := assigned_id t data s,
                    arrays := (if vetoes (triggers_of s t) ''insert'' None (Some ?nd)
                               then arrays s
                               else (arrays s)(a := arrays s a @ [?nd]))\<rparr>))"
    by blast
  have c1: "m_lastInsertId ?s' = PNum ?k" using sh asg by simp
  have c2: "arrays ?s' a = ?rows @ [?nd]" using sh nv by simp
  have c3: "getProp ?nd ''id'' = PNum ?k" using inserted_row_id[of t data s] asg by simp
  have tb: "m_tables ?s' = m_tables s" using sh by simp
  have nx: "?k = (if ?rows = [] then 1 else round_double (Max (set (map id_or_zero ?rows)) + 1))"
    using assms(1) by (rule m_getNextId_rows)
  have c4: "?rows = [] \<longrightarrow> ?k = 1" using nx by simp
  have c5: "(?rows \<noteq> [] \<longrightarrow> ?k = Max (set (map id_or_zero ?rows)) + 1)
          \<and> (?rows = [] \<or> (\<exists>r \<in> set ?rows. 0 \<le> id_or_zero r) \<longrightarrow> ?k = spec_next_id ?rows)
          \<and> m_getNextId t ?s' = ?k + 1"
    if b: "\<forall>r \<in> set ?rows. \<bar>id_or_zero r\<bar> < 2 ^ 53 - 1"
  proof -
    have ex: "?k = (if ?rows = [] then 1 else Max (set (map id_or_zero ?rows)) + 1)"
      and kb: "\<bar>?k\<bar> < 2 ^ 53"
    proof -
      show "?k = (if ?rows = [] then 1 else Max (set (map id_or_zero ?rows)) + 1)"
      proof (cases "?rows = []")
        case True
        then show ?thesis using nx by simp
      next
        case False
        from Max_ids_bounded[OF False b]
        have "\<bar>Max (set (map id_or_zero ?rows)) + 1\<bar> < 2 ^ 53" by linarith
        then show ?thesis using nx False by (simp add: round_double_safe)
      qed
      then show "\<bar>?k\<bar> < 2 ^ 53"
      proof (cases "?rows = []")
        case True
        then show ?thesis using nx by simp
      next
        case False
        from Max_ids_bounded[OF False b]
        have "\<bar>Max (set (map id_or_zero ?rows)) + 1\<bar> < 2 ^ 53" by linarith
        then show ?thesis using nx False by (simp add: round_double_safe)
      qed
    qed
    have p1: "?rows \<noteq> [] \<longrightarrow> ?k = Max (set (map id_or_zero ?rows)) + 1" using ex by simp
    have p2: "?rows = [] \<or> (\<exists>r \<in> set ?rows. 0 \<le> id_or_zero r) \<longrightarrow> ?k = spec_next_id ?rows"
    proof (cases "?rows = []")
      case True
      then show ?thesis using ex by (simp add: spec_next_id_def)
    next
      case False
      show ?thesis
      proof
        assume "?rows = [] \<or> (\<exists>r \<in> set ?rows. 0 \<le> id_or_zero r)"
        with False have "\<exists>r \<in> set ?rows. 0 \<le> id_or_zero r" by simp
        from spec_next_id_agrees[OF this] show "?k = spec_next_id ?rows" using ex False by simp
      qed
    qed
    have idn: "id_or_zero ?nd = ?k" using c3 kb by (rule id_or_zero_PNum)
    have mx: "Max (set (map id_or_zero (?rows @ [?nd]))) = ?k"
      using next_id_after_append[of ?nd ?rows] idn ex by simp
    have "\<bar>?k + 1\<bar> \<le> 2 ^ 53"
    proof (cases "?rows = []")
      case True
      then show ?thesis using ex by simp
    next
      case False
      from Max_ids_bounded[OF False b] show ?thesis using ex False by simp
    qed
    then have rd: "round_double (?k + 1) = ?k + 1" by (rule round_double_exact)
    have p3: "m_getNextId t ?s' = ?k + 1"
      using m_getNextId_rows[of ?s' t a] tb assms(1) c2 mx rd by simp
    show ?thesis using p1 p2 p3 by simp
  qed
  have c6: "m_getNextId t (snd (insert_db t2 data2 s)) = ?k"
    if o: "m_tables s t2 = Some a2 \<and> a2 \<noteq> a \<and> triggers_of s t2 = []"
  proof -
    from o have t2: "m_tables s t2 = Some a2" and ne: "a2 \<noteq> a" by simp_all
    from insert_db_shape[OF t2, of data2] obtain j where
      "insert_db t2 data2 s =
       (Return (),
        advance j (s\<lparr>m_lastInsertId := assigned_id t2 data2 s,
                    arrays := (if vetoes (triggers_of s t2) ''insert'' None (Some (inserted_row t2 data2 s))
                               then arrays s
                               else (arrays s)(a2 := arrays s a2 @ [inserted_row t2 data2 s]))\<rparr>))"
      by blast
    then show ?thesis using assms(1) ne by (simp add: m_getNextId_def)
  qed
  show ?thesis using c1 c2 c3 c4 c5 c6 by blast
qed

lemma ids: "\<bar>k\<bar> < 2 ^ 53 \<Longrightarrow> id_or_zero [''id'' \<mapsto> PNum k] = k" "id_or_zero adult = 1"
  by (simp_all add: id_or_zero_PNum getProp_def adult_def)

theorem auto_increment_witness:
  "m_tables (users_store [adult] None) ''users'' = Some 0
   \<and> getProp auto_row ''id'' = PStr ''AUTO_INCREMENT''
   \<and> triggers_of (users_store [adult] None) ''users'' = []
   \<and> arrays (users_store [adult] None) 0 = [adult]
   \<and> \<bar>id_or_zero adult\<bar> < 2 ^ 53 - 1
   \<and> m_getNextId ''users'' (users_store [adult] None) = 2
   \<and> m_lastInsertId (snd (insert_db ''users'' auto_row (users_store [adult] None))) = PNum 2
   \<and> rows_of (snd (insert_db ''users'' auto_row (users_store [adult] None))) ''users''
       = Some [adult, [''id'' \<mapsto> PNum 2]]
   \<and> m_getNextId ''users'' (snd (insert_db ''users'' auto_row (users_store [adult] None))) = 3"
proof -
  let ?s = "users_store [adult] None"
  have h1: "m_tables ?s ''users'' = Some 0"
    by (simp add: store_eval adult_def)
  have h2: "getProp auto_row ''id'' = PStr ''AUTO_INCREMENT''"
    by (simp add: auto_row_def getProp_def)
  have h3: "triggers_of ?s ''users'' = []"
    by (simp add: triggers_of_def store_eval adult_def)
  have r: "arrays ?s 0 = [adult]"
    by (simp add: store_eval adult_def)
  have b: "\<forall>r \<in> set (arrays ?s 0). \<bar>id_or_zero r\<bar> < 2 ^ 53 - 1"
    using r by (simp add: ids)
  have ts: "\<not> m_timestamps ?s" by (simp add: store_eval adult_def)
  have t: "m_tables (snd (insert_db ''users'' auto_row ?s)) ''users'' = Some 0"
    using insert_db_shape[OF h1, of auto_row] h1 by auto
  have n: "m_getNextId ''users'' ?s = 2"
    using auto_increment_ids[OF h1 h2 h3, of "''users''" 0 Map.empty] b r by (simp add: ids)
  have nd: "inserted_row ''users'' auto_row ?s = [''id'' \<mapsto> PNum 2]"
    using h2 ts n by (simp add: inserted_row_def auto_row_def)
  from auto_increment_ids[OF h1 h2 h3, of "''users''" 0 Map.empty] h1 h2 h3 b n r t nd
  show ?thesis by (simp add: rows_of_def ids)
qed

lemma id_or_zero_two_to_53: "id_or_zero [''id'' \<mapsto> PNum 9007199254740992] = 9007199254740992"
  by (simp add: id_or_zero_def parseInt_def int_string_two_to_53 getProp_def
        parseInt_string_def is_space_def digit_val_def digits_value_def round_double_exact)

text \<open>
  C5 as stated fails. In a table whose only row has id \<open>-5\<close> the assigned id is \<open>-4\<close>, while
  the maximum of the ids and \<open>0\<close>, plus one, is \<open>1\<close>. Under a trigger that vetoes every insert
  two successive inserts are both assigned \<open>1\<close>. When two tables were set to the same
  array, an insert into one changes the next id of the other. And in a table whose only row
  has id \<open>2\<^sup>5\<^sup>3\<close> the assigned id is \<open>2\<^sup>5\<^sup>3\<close> again, since the addition rounds.
\<close>

theorem auto_increment_counterexample:
  "m_lastInsertId (snd (insert_db ''users'' auto_row (users_store [[''id'' \<mapsto> PNum (- 5)]] None)))
     = PNum (- 4)
   \<and> spec_next_id [[''id'' \<mapsto> PNum (- 5)]] = 1
   \<and> m_lastInsertId (snd (insert_db ''users'' auto_row (users_store [[''id'' \<mapsto> PNum (- 5)]] None)))
       \<noteq> PNum (spec_next_id [[''id'' \<mapsto> PNum (- 5)]])
   \<and> m_lastInsertId (snd (insert_db ''users'' auto_row guarded_store)) = PNum 1
   \<and> m_lastInsertId (snd (insert_db ''users'' auto_row
                            (snd (insert_db ''users'' auto_row guarded_store)))) = PNum 1
   \<and> m_getNextId ''a'' shared_store = 1
   \<and> m_getNextId ''a'' (snd (insert_db ''b'' auto_row shared_store)) = 2
   \<and> id_or_zero [''id'' \<mapsto> PNum 9007199254740992] = 9007199254740992
   \<and> m_lastInsertId (snd (insert_db ''users'' auto_row
                            (users_store [[''id'' \<mapsto> PNum 9007199254740992]] None)))
       = PNum 9007199254740992"
proof -
  have a: "m_lastInsertId (snd (insert_db ''users'' auto_row (users_store [[''id'' \<mapsto> PNum (- 5)]] None)))
     = PNum (- 4)"
    by (simp add: store_eval auto_row_def m_getNextId_def ids round_double_safe)
  have b: "spec_next_id [[''id'' \<mapsto> PNum (- 5)]] = 1"
    by (simp add: spec_next_id_def ids)
  have c: "m_lastInsertId (snd (insert_db ''users'' auto_row guarded_store)) = PNum 1
   \<and> m_lastInsertId (snd (insert_db ''users'' auto_row
                            (snd (insert_db ''users'' auto_row guarded_store)))) = PNum 1"
    by (simp add: guarded_store_def createTrigger_def store_eval auto_row_def m_getNextId_def
          deny_all_def)
  have d: "m_getNextId ''a'' shared_store = 1
   \<and> m_getNextId ''a'' (snd (insert_db ''b'' auto_row shared_store)) = 2"
    by (simp add: shared_store_def new_array_def setTable_def store_eval auto_row_def
          m_getNextId_def ids round_double_safe)
  have e: "m_lastInsertId (snd (insert_db ''users'' auto_row
                            (users_store [[''id'' \<mapsto> PNum 9007199254740992]] None)))
       = PNum 9007199254740992"
    by (simp add: store_eval auto_row_def m_getNextId_def id_or_zero_two_to_53 round_double_above_safe)
  show ?thesis using a b c d e id_or_zero_two_to_53 by simp
qed

subsection \<open>Transactions\<close>

text \<open>
  When the callback of a transaction raises, the failure is raised again and every table
  name (but \<open>__proto__\<close>) refers to the array it referred to at entry; the contents of
  the arrays are those that the callback left.
\<close>

lemma rollback_keeps_heap:
  assumes "fst (callback (snd (backup s))) = Throw e"
  shows "fst (transaction callback s) = Throw e"
    and "arrays (snd (transaction callback s)) = arrays (snd (callback (snd (backup s))))"
    and "tableName \<noteq> ''__proto__'' \<Longrightarrow>
         m_tables (snd (transaction callback s)) tableName = m_tables s tableName"
proof -
  obtain s1 where cb: "callback (snd (backup s)) = (Throw e, s1)"
    using assms by (cases "callback (snd (backup s))") auto
  have bk: "backup s = (fst (backup s), snd (backup s))" by simp
  have tr: "transaction callback s
        = (Throw e, m_log ''transaction'' (snd (restore (fst (backup s)) s1)))"
    using cb by (simp add: transaction_def split_beta restore_def)
  show "fst (transaction callback s) = Throw e" using tr by simp
  show "arrays (snd (transaction callback s)) = arrays (snd (callback (snd (backup s))))"
    using tr cb by (simp add: restore_def m_log_advance)
  show "m_tables (snd (transaction callback s)) tableName = m_tables s tableName"
    if "tableName \<noteq> ''__proto__''"
    using tr that
    by (simp add: restore_def m_log_advance backup_def m_getCurrentTimestamp_def
          toISOString_advance split_beta)
qed

text \<open>
  C2. The claim: after a transaction whose callback makes inserts and then raises, the
  failure is raised again and the rows of every table are those at entry. The backup holds
  the arrays of the tables themselves and \<^verbatim>\<open>insert\<close> pushes onto them, so the restored
  table still has the inserted rows: here two rows in a table that was empty at entry.
\<close>

theorem transaction_rollback_keeps_inserted_rows:
  "rows_of (users_store [] None) ''users'' = Some []
   \<and> fst (transaction two_inserts_then_raise (users_store [] None)) = Throw (UserError ''stop'')
   \<and> m_tables (snd (transaction two_inserts_then_raise (users_store [] None))) ''users''
       = m_tables (users_store [] None) ''users''
   \<and> rows_of (snd (transaction two_inserts_then_raise (users_store [] None))) ''users''
       = Some [[''id'' \<mapsto> PNum 1], [''id'' \<mapsto> PNum 2]]"
  by (simp add: store_eval transaction_def backup_def restore_def m_getCurrentTimestamp_def
        toISOString_def two_inserts_then_raise_def)

subsection \<open>Reads\<close>

lemma filter_rows_pure:
  "(\<And>r. p r = Return (P r)) \<Longrightarrow> filter_rows p rs = Return (filter P rs)"
  by (induction rs) simp_all

lemma every_condition_two_equalities:
  assumes "c_operator c1 = PStr ''AND''" and "c_operator c2 = PStr ''AND'' \<or> c_operator c2 = PStr ''OR''"
  shows "every_condition [c1, c2] r
     = Return (strict_eq (getProp r (c_field c1)) (c_value c1) \<and> strict_eq (getProp r (c_field c2)) (c_value c2))"
  using assms by (auto simp: eval_condition_def)

text \<open>
  C6. After \<^verbatim>\<open>where(f1, v1).orWhere(f2, v2)\<close> on a store with no other pending condition,
  \<^verbatim>\<open>get\<close> returns exactly the rows (of those the soft-delete filter lets through) that
  satisfy both equalities, and the result and the state are the same as for
  \<^verbatim>\<open>where(f1, v1).where(f2, v2)\<close>: the tag that \<^verbatim>\<open>orWhere\<close> records is never read.
\<close>

theorem where_orWhere_is_conjunction:
  assumes "m_tables s t = Some a"
    and "m_whereConditions s = []" and "m_searchConditions s = []"
    and "m_orderBy s = None" and "m_limit s = None"
  shows "fst (get_db srt t (orWhere f2 v2 (where_db f1 v1 PUndefined s)))
           = Return (filter (\<lambda>r. strict_eq (getProp r f1) v1 \<and> strict_eq (getProp r f2) v2)
                       (visible_rows s a))
       \<and> get_db srt t (orWhere f2 v2 (where_db f1 v1 PUndefined s))
           = get_db srt t (where_db f2 v2 PUndefined (where_db f1 v1 PUndefined s))"
proof -
  let ?c1 = "\<lparr>c_field = f1, c_operator = PStr ''AND'', c_value = v1\<rparr>"
  let ?P = "\<lambda>r. strict_eq (getProp r f1) v1 \<and> strict_eq (getProp r f2) v2"
  have ev: "every_condition [?c1, \<lparr>c_field = f2, c_operator = tag, c_value = v2\<rparr>] r = Return (?P r)"
    if "tag = PStr ''AND'' \<or> tag = PStr ''OR''" for tag r
    using that every_condition_two_equalities[of ?c1 "\<lparr>c_field = f2, c_operator = tag, c_value = v2\<rparr>" r]
    by simp
  have ws: "where_step [?c1, \<lparr>c_field = f2, c_operator = tag, c_value = v2\<rparr>] rs = Return (filter ?P rs)"
    if "tag = PStr ''AND'' \<or> tag = PStr ''OR''" for tag rs
  proof -
    have "filter_rows (every_condition [?c1, \<lparr>c_field = f2, c_operator = tag, c_value = v2\<rparr>]) rs
            = Return (filter ?P rs)"
      by (rule filter_rows_pure) (rule ev[OF that])
    then show ?thesis by (simp add: where_step_def del: every_condition.simps)
  qed
  show ?thesis
    using assms ws[of "PStr ''OR''"] ws[of "PStr ''AND''"]
    by (simp add: get_db_def orWhere_def where_db_def m_applyConditions_def search_step_def
          order_step_def page_step_def visible_rows_def m_resetConditions_def Let_def)
qed

theorem where_orWhere_witness:
  "m_tables (users_store [adult, twin, minor] None) ''users'' = Some 0
   \<and> m_whereConditions (users_store [adult, twin, minor] None) = []
   \<and> fst (get_db insertion_sort_host ''users''
          (orWhere ''id'' (Prim (PNum 2))
            (where_db ''age'' (Prim (PNum 30)) PUndefined (users_store [adult, twin, minor] None))))
       = Return [twin]"
proof -
  have h: "m_tables (users_store [adult, twin, minor] None) ''users'' = Some 0"
    "m_whereConditions (users_store [adult, twin, minor] None) = []"
    "m_searchConditions (users_store [adult, twin, minor] None) = []"
    "m_orderBy (users_store [adult, twin, minor] None) = None"
    "m_limit (users_store [adult, twin, minor] None) = None"
    by (simp_all add: store_eval adult_def twin_def minor_def)
  have v: "visible_rows (users_store [adult, twin, minor] None) 0 = [adult, twin, minor]"
    by (simp add: visible_rows_def store_eval adult_def twin_def minor_def)
  have e: "filter (\<lambda>r. strict_eq (getProp r ''age'') (Prim (PNum 30))
                       \<and> strict_eq (getProp r ''id'') (Prim (PNum 2))) [adult, twin, minor]
             = [twin]"
    by (simp add: adult_def twin_def minor_def getProp_def)
  have "fst (get_db insertion_sort_host ''users''
          (orWhere ''id'' (Prim (PNum 2))
            (where_db ''age'' (Prim (PNum 30)) PUndefined (users_store [adult, twin, minor] None))))
       = Return (filter (\<lambda>r. strict_eq (getProp r ''age'') (Prim (PNum 30))
                       \<and> strict_eq (getProp r ''id'') (Prim (PNum 2)))
                  (visible_rows (users_store [adult, twin, minor] None) 0))"
    using where_orWhere_is_conjunction[OF h] by blast
  then show ?thesis using h(1,2) by (simp only: v e simp_thms)
qed

text \<open>
  C10. A terminal operation on a table that does not exist raises and leaves the whole
  state as it was, the pending conditions included, so they apply to the next terminal
  call. This holds for \<^verbatim>\<open>get\<close>, for every operation that starts with \<^verbatim>\<open>get\<close>
  (\<open>via_get\<close>, of which \<^verbatim>\<open>getOne\<close> and \<^verbatim>\<open>count\<close> are instances), for \<^verbatim>\<open>update\<close> and for
  \<^verbatim>\<open>delete\<close>.
\<close>

theorem missing_table_keeps_conditions:
  assumes "m_tables s t = None"
  shows "get_db srt t s = (Throw (TableNotFound t), s)
       \<and> via_get f srt t s = (Throw (TableNotFound t), s)
       \<and> getOne srt t s = (Throw (TableNotFound t), s)
       \<and> count_db srt t s = (Throw (TableNotFound t), s)
       \<and> update_db t data s = (Throw (TableNotFound t), s)
       \<and> delete_db t s = (Throw (TableNotFound t), s)
       \<and> get_db srt t2 (snd (get_db srt t s)) = get_db srt t2 s
       \<and> update_db t2 data2 (snd (update_db t data s)) = update_db t2 data2 s
       \<and> delete_db t2 (snd (delete_db t s)) = delete_db t2 s"
  using assms by (simp add: get_db_def via_get_def getOne_def count_db_def update_db_def delete_db_def)

theorem missing_table_witness:
  "m_tables (where_db ''age'' (Prim (PNum 30)) PUndefined (users_store [adult, minor] None)) ''posts''
     = None
   \<and> fst (get_db insertion_sort_host ''posts''
          (where_db ''age'' (Prim (PNum 30)) PUndefined (users_store [adult, minor] None)))
       = Throw (TableNotFound ''posts'')
   \<and> fst (get_db insertion_sort_host ''users''
          (snd (get_db insertion_sort_host ''posts''
                 (where_db ''age'' (Prim (PNum 30)) PUndefined (users_store [adult, minor] None)))))
       = Return [adult]"
proof -
  have h: "m_tables (where_db ''age'' (Prim (PNum 30)) PUndefined
                      (users_store [adult, minor] None)) ''posts'' = None"
    by (simp add: store_eval where_db_def)
  have g: "fst (get_db insertion_sort_host ''users''
                 (where_db ''age'' (Prim (PNum 30)) PUndefined (users_store [adult, minor] None)))
             = Return [adult]"
    by (simp add: store_eval where_db_def get_db_def m_applyConditions_def where_step_def
          eval_condition_def search_step_def order_step_def page_step_def adult_def minor_def)
  from missing_table_keeps_conditions[OF h, of insertion_sort_host length Map.empty
      "''users''" Map.empty] h g
  show ?thesis by simp
qed

subsection \<open>The test of update and the evaluator\<close>

text \<open>
  The test of \<^verbatim>\<open>update\<close> and \<^verbatim>\<open>delete\<close> and the where step of the evaluator agree on the
  conditions whose operator is none of the seven that the evaluator singles out.
\<close>

lemma eval_condition_equality:
  assumes "c_operator c \<notin> {PStr ''IN'', PStr ''LIKE'', PStr ''>'', PStr ''<'', PStr ''>='',
                            PStr ''<='', PStr ''!=''}"
  shows "eval_condition r c = Return (strict_eq (getProp r (c_field c)) (c_value c))"
  using assms by (simp add: eval_condition_def)

lemma update_test_agrees_on_equalities:
  assumes "\<forall>c \<in> set conds.
             c_operator c \<notin> {PStr ''IN'', PStr ''LIKE'', PStr ''>'', PStr ''<'', PStr ''>='',
                              PStr ''<='', PStr ''!=''}"
  shows "every_condition conds r = Return (matches_all conds r)"
  using assms
proof (induction conds)
  case Nil
  show ?case by (simp add: matches_all_def)
next
  case (Cons c cs)
  then have "eval_condition r c = Return (strict_eq (getProp r (c_field c)) (c_value c))"
    by (intro eval_condition_equality) simp
  then show ?case using Cons by (simp add: matches_all_def)
qed

text \<open>
  C4. The claim: \<^verbatim>\<open>update\<close> matches a row exactly when the where step of the read evaluator
  accepts it, operator conditions included. \<^verbatim>\<open>update\<close> compares every condition with
  \<^verbatim>\<open>===\<close> and never reads its operator: under the pending condition \<open>age > 18\<close> the read
  returns the row whose age is 30, and \<^verbatim>\<open>update\<close> leaves that row as it is.
\<close>

theorem update_ignores_operator:
  "where_step (m_whereConditions
       (whereOperator ''age'' (PStr ''>'') (Prim (PNum 18)) (users_store [adult] None))) [adult]
     = Return [adult]
   \<and> fst (get_db srt ''users''
        (whereOperator ''age'' (PStr ''>'') (Prim (PNum 18)) (users_store [adult] None)))
     = Return [adult]
   \<and> \<not> matches_all (m_whereConditions
        (whereOperator ''age'' (PStr ''>'') (Prim (PNum 18)) (users_store [adult] None))) adult
   \<and> rows_of (snd (update_db ''users'' [''age'' \<mapsto> PNum 31]
        (whereOperator ''age'' (PStr ''>'') (Prim (PNum 18)) (users_store [adult] None)))) ''users''
     = Some [adult]"
  by (simp add: store_eval whereOperator_def where_step_def eval_condition_def js_gt_def
        compare_lt_def get_db_def m_applyConditions_def search_step_def order_step_def
        page_step_def matches_all_def update_db_def m_resetConditions_def adult_def)

subsection \<open>The ordering step\<close>

text \<open>
  The two host sorts of the examples are sorts: they permute their input, and for a
  consistent comparator each of them is the stable sort by the key.
\<close>

lemma insert_by_three_way: "insert_by (three_way key) x ys = insort_key key x ys"
  by (induction ys) (auto simp: three_way_def)

lemma insertion_sort_host_stable:
  "insertion_sort_host (three_way key) xs = sort_key key xs"
  by (induction xs) (simp_all add: insertion_sort_host_def insert_by_three_way)

lemma mset_insert_before: "mset (insert_before cmp x ys) = add_mset x (mset ys)"
  by (induction ys) simp_all

lemma set_insert_before: "set (insert_before cmp x ys) = insert x (set ys)"
  by (induction ys) auto

lemma sorted_insert_before:
  "sorted (map key ys) \<Longrightarrow> sorted (map key (insert_before (three_way key) x ys))"
  by (induction ys) (auto simp: three_way_def set_insert_before)

lemma filter_insert_before:
  "sorted (map key ys) \<Longrightarrow>
   filter (\<lambda>y. key y = v) (insert_before (three_way key) x ys)
     = (if key x = v then filter (\<lambda>y. key y = v) ys @ [x] else filter (\<lambda>y. key y = v) ys)"
proof (induction ys)
  case Nil
  then show ?case by simp
next
  case (Cons y ys)
  show ?case
  proof (cases "key x < key y")
    case True
    have "filter (\<lambda>z. key z = key x) (y # ys) = []"
      using True Cons.prems by (auto simp: filter_empty_conv)
    then show ?thesis using True by (auto simp: three_way_def)
  next
    case False
    then show ?thesis using Cons by (auto simp: three_way_def)
  qed
qed

lemma forward_insertion_host_snoc:
  "forward_insertion_host cmp (xs @ [x]) = insert_before cmp x (forward_insertion_host cmp xs)"
  by (simp add: forward_insertion_host_def)

lemma forward_insertion_host_props:
  "mset (forward_insertion_host (three_way key) xs) = mset xs
   \<and> sorted (map key (forward_insertion_host (three_way key) xs))
   \<and> (\<forall>v. filter (\<lambda>y. key y = v) (forward_insertion_host (three_way key) xs)
            = filter (\<lambda>y. key y = v) xs)"
proof (induction xs rule: rev_induct)
  case Nil
  show ?case by (simp add: forward_insertion_host_def)
next
  case (snoc x xs)
  then show ?case
    by (simp add: forward_insertion_host_snoc mset_insert_before sorted_insert_before
          filter_insert_before)
qed

lemma forward_insertion_host_stable:
  "forward_insertion_host (three_way key) xs = sort_key key xs"
proof -
  let ?ys = "forward_insertion_host (three_way key) xs"
  have "sort_key key xs = ?ys"
  proof (rule properties_for_sort_key)
    show "mset ?ys = mset xs" using forward_insertion_host_props by blast
    show "sorted (map key ?ys)" using forward_insertion_host_props by blast
    show "filter (\<lambda>x. key k = key x) ?ys = filter (\<lambda>x. key k = key x) xs" for k
      using forward_insertion_host_props[of key xs] by (simp add: eq_commute[of "key k"])
  qed
  then show ?thesis by simp
qed

lemma mset_insert_by: "mset (insert_by cmp x ys) = add_mset x (mset ys)"
  by (induction ys) simp_all

lemma host_sorts_permute:
  "mset (insertion_sort_host cmp xs) = mset xs"
  "mset (forward_insertion_host cmp xs) = mset xs"
proof -
  show "mset (insertion_sort_host cmp xs) = mset xs"
    by (induction xs) (simp_all add: insertion_sort_host_def mset_insert_by)
  show "mset (forward_insertion_host cmp xs) = mset xs"
    by (induction xs rule: rev_induct)
       (simp_all add: forward_insertion_host_def mset_insert_before)
qed

lemma str_less_irrefl: "\<not> str_less x x"
  by (induction x) simp_all

lemma compare_lt_irrefl: "compare_lt k k \<noteq> Some True"
  by (cases k) (auto simp: compare_lt_def str_less_irrefl split: option.splits)

text \<open>The comparator of the ordering step is never \<open>0\<close>, and is \<open>-1\<close> on equal keys.\<close>

lemma compareFn_never_zero: "compareFn ob a b = 1 \<or> compareFn ob a b = - 1"
  by (simp add: compareFn_def)

lemma compareFn_on_ties:
  "getProp a (ob_column ob) = getProp b (ob_column ob) \<Longrightarrow>
   compareFn ob a b = - 1 \<and> compareFn ob b a = - 1"
  using compare_lt_irrefl[of "getProp b (ob_column ob)"]
  by (simp add: compareFn_def js_gt_def js_lt_def)

text \<open>
  C8. The claim: the ordering step is a stable sort by the column. The comparator never
  returns \<open>0\<close>: for two rows with the same key it answers \<open>-1\<close> in both orders, in
  either direction, so it tells the sort that each of the two rows comes before the other.
  The language promises a sorted, stable result only for a consistent comparator, and the
  result here depends on the host: of the two stable insertion sorts above, one keeps the
  two rows in their order and the other, which calls the comparator with the later row
  first, returns them reversed.
\<close>

theorem comparator_contradicts_itself_on_ties:
  "getProp adult ''age'' = getProp twin ''age''
   \<and> compareFn \<lparr>ob_column = ''age'', ob_direction = ''ASC''\<rparr> adult twin = - 1
   \<and> compareFn \<lparr>ob_column = ''age'', ob_direction = ''ASC''\<rparr> twin adult = - 1
   \<and> compareFn \<lparr>ob_column = ''age'', ob_direction = ''DESC''\<rparr> adult twin = - 1
   \<and> compareFn \<lparr>ob_column = ''age'', ob_direction = ''DESC''\<rparr> twin adult = - 1
   \<and> fst (get_db insertion_sort_host ''users''
          (orderBy ''age'' ''ASC'' (users_store [adult, twin] None))) = Return [adult, twin]
   \<and> fst (get_db forward_insertion_host ''users''
          (orderBy ''age'' ''ASC'' (users_store [adult, twin] None))) = Return [twin, adult]"
  by (simp add: compareFn_def getProp_def js_gt_def js_lt_def compare_lt_def adult_def twin_def
        store_eval orderBy_def toUpperCase_def upper_char_def get_db_def m_applyConditions_def
        where_step_def search_step_def order_step_def page_step_def insertion_sort_host_def
        forward_insertion_host_def)

subsection \<open>Soft deletion\<close>

text \<open>
  C7. The claim: with soft deletion on, \<^verbatim>\<open>delete\<close> marks every matching row that no trigger
  vetoes with a deletion time and keeps it in the table, and the row is from then on left
  out of \<^verbatim>\<open>get\<close> and \<^verbatim>\<open>count\<close>. The matching rows are those that the reads select, and
  \<^verbatim>\<open>delete\<close> compares every condition with \<^verbatim>\<open>===\<close> and never reads its operator: under
  the pending condition \<open>age > 18\<close> the read selects the row whose age is 30, \<^verbatim>\<open>delete\<close>
  marks no row, and \<^verbatim>\<open>get\<close> and \<^verbatim>\<open>count\<close> still return both rows. Under the equality
  \<open>age = 30\<close> the same row is marked, stays in the table, and is no longer returned.
\<close>

theorem soft_delete_ignores_operator:
  "m_softDelete soft_users
   \<and> rows_of soft_users ''users'' = Some [adult, minor]
   \<and> fst (get_db srt ''users'' (whereOperator ''age'' (PStr ''>'') (Prim (PNum 18)) soft_users))
       = Return [adult]
   \<and> rows_of (snd (delete_db ''users''
                     (whereOperator ''age'' (PStr ''>'') (Prim (PNum 18)) soft_users))) ''users''
       = Some [adult, minor]
   \<and> fst (get_db srt ''users''
            (snd (delete_db ''users''
                   (whereOperator ''age'' (PStr ''>'') (Prim (PNum 18)) soft_users))))
       = Return [adult, minor]
   \<and> fst (count_db srt ''users''
            (snd (delete_db ''users''
                   (whereOperator ''age'' (PStr ''>'') (Prim (PNum 18)) soft_users))))
       = Return 2
   \<and> rows_of (snd (delete_db ''users'' (where_db ''age'' (Prim (PNum 30)) PUndefined soft_users)))
        ''users''
       = Some [adult(''deleted_at'' \<mapsto> PStr (iso_clock 0)), minor]
   \<and> fst (get_db srt ''users''
            (snd (delete_db ''users'' (where_db ''age'' (Prim (PNum 30)) PUndefined soft_users))))
       = Return [minor]"
proof -
  let ?gt = "whereOperator ''age'' (PStr ''>'') (Prim (PNum 18)) soft_users"
  let ?eq = "where_db ''age'' (Prim (PNum 30)) PUndefined soft_users"
  have s: "m_softDelete soft_users" "rows_of soft_users ''users'' = Some [adult, minor]"
    by (simp_all add: soft_users_def store_eval adult_def minor_def)
  have g: "fst (get_db srt ''users'' ?gt) = Return [adult]"
    by (simp add: soft_users_def store_eval whereOperator_def where_step_def eval_condition_def
          js_gt_def compare_lt_def get_db_def m_applyConditions_def search_step_def
          order_step_def page_step_def adult_def minor_def)
  have d: "rows_of (snd (delete_db ''users'' ?gt)) ''users'' = Some [adult, minor]"
    by (simp add: soft_users_def store_eval whereOperator_def delete_db_def matches_all_def
          m_resetConditions_def adult_def minor_def)
  have g2: "fst (get_db srt ''users'' (snd (delete_db ''users'' ?gt))) = Return [adult, minor]"
    by (simp add: soft_users_def store_eval whereOperator_def delete_db_def matches_all_def
          m_resetConditions_def get_db_def m_applyConditions_def where_step_def search_step_def
          order_step_def page_step_def adult_def minor_def)
  have c: "fst (count_db srt ''users'' (snd (delete_db ''users'' ?gt))) = Return 2"
    using g2 by (cases "get_db srt ''users'' (snd (delete_db ''users'' ?gt))")
      (simp add: count_db_def via_get_def)
  have d2: "rows_of (snd (delete_db ''users'' ?eq)) ''users''
       = Some [adult(''deleted_at'' \<mapsto> PStr (iso_clock 0)), minor]"
    by (simp add: soft_users_def store_eval where_db_def delete_db_def matches_all_def
          toISOString_def m_resetConditions_def adult_def minor_def)
  have g3: "fst (get_db srt ''users'' (snd (delete_db ''users'' ?eq))) = Return [minor]"
    by (simp add: soft_users_def store_eval where_db_def delete_db_def matches_all_def
          toISOString_def m_resetConditions_def get_db_def m_applyConditions_def where_step_def
          search_step_def order_step_def page_step_def adult_def minor_def)
  show ?thesis using s g d g2 c d2 g3 by simp
qed

end
